theory Spec2Isabelle
  imports Main
begin

text \<open>
  A model of the HDTV matrix integration: the state parser, the HTTP client
  (\<open>HDTVMatrixApi\<close>) and the polling coordinator (\<open>HDTVCoordinator\<close>), with the
  properties their specification states. Functions that talk to the device take the
  device as an argument and thread the list of events they cause; a function that can
  raise returns \<open>Inl\<close> of the exception.
\<close>

section \<open>Python values used by the matrix client\<close>

subsection \<open>Strings and integers\<close>

text \<open>
  A Python \<open>str\<close> is a \<open>string\<close> (a list of characters with code points below 256),
  a Python \<open>int\<close> is an \<open>int\<close>. \<open>str_int\<close> is \<open>str(i)\<close>, which is also what an f-string
  writes for an integer; \<open>join\<close> is \<open>sep.join(xs)\<close>.
\<close>

definition digit_char :: "nat \<Rightarrow> char" where
  "digit_char d = char_of (48 + d)"

fun digits :: "nat \<Rightarrow> string" where
  "digits n = (if n < 10 then [digit_char n] else digits (n div 10) @ [digit_char (n mod 10)])"

declare digits.simps [simp del]

definition str_int :: "int \<Rightarrow> string" where
  "str_int i = (if i < 0 then CHR ''-'' # digits (nat (- i)) else digits (nat i))"

fun join :: "string \<Rightarrow> string list \<Rightarrow> string" where
  "join sep [] = []"
| "join sep [x] = x"
| "join sep (x # y # ys) = x @ sep @ join sep (y # ys)"

subsection \<open>Dictionaries\<close>

text \<open>
  A Python \<open>dict\<close> keeps its keys in insertion order, and assigning to a key that is
  already present keeps the key's position: an association list with \<open>dict_set\<close> for
  \<open>d[k] = v\<close> and \<open>map_of\<close> for \<open>d.get(k)\<close>.
\<close>

fun dict_set :: "('k \<times> 'v) list \<Rightarrow> 'k \<Rightarrow> 'v \<Rightarrow> ('k \<times> 'v) list" where
  "dict_set [] k v = [(k, v)]"
| "dict_set ((k', v') # ps) k v =
     (if k' = k then (k, v) # ps else (k', v') # dict_set ps k v)"

fun enumerate_from :: "int \<Rightarrow> 'a list \<Rightarrow> (int \<times> 'a) list" where
  "enumerate_from start [] = []"
| "enumerate_from start (x # xs) = (start, x) # enumerate_from (start + 1) xs"

definition py_enumerate :: "'a list \<Rightarrow> (int \<times> 'a) list" where
  "py_enumerate xs = enumerate_from 0 xs"

text \<open>
  A Python float: a mantissa and a binary exponent (\<open>PyFloat m e\<close> is \<open>m * 2 ** e\<close>,
  with \<open>PyFloat 0 e\<close> the positive zero), the negative zero, an infinity with its sign,
  or a NaN. The value of \<open>time.time()\<close> is one, and a JSON body can hold them. No
  floating-point arithmetic is defined here: where the program computes with a float,
  the result is a parameter of the model.
\<close>

datatype pyfloat = PyFloat int int | PyNegZero | PyInf bool | PyNaN

section \<open>The state model (api.py)\<close>

definition DISCONNECTED_VALUE :: int where
  "DISCONNECTED_VALUE = 65535"

record MatrixOutput =
  output_number :: int
  input_number :: "int option"
  raw_value :: int

record MatrixState =
  outputs :: "(int \<times> MatrixOutput) list"
  timestamp :: pyfloat

definition total_outputs :: "MatrixState \<Rightarrow> int" where
  "total_outputs st = int (length (outputs st))"

definition get_output :: "MatrixState \<Rightarrow> int \<Rightarrow> MatrixOutput option" where
  "get_output st output_num = map_of (outputs st) output_num"

subsection \<open>StateParser.parse_status_array\<close>

text \<open>
  The body of the \<open>for output_idx, raw_value in enumerate(status_array)\<close> loop, with the
  dictionary \<open>outputs\<close> as the accumulator. The second argument of
  \<open>parse_status_array\<close> is the clock reading \<open>time.time()\<close> taken at the return.
\<close>

fun parse_loop :: "(int \<times> int) list \<Rightarrow> (int \<times> MatrixOutput) list \<Rightarrow> (int \<times> MatrixOutput) list" where
  "parse_loop [] outs = outs"
| "parse_loop ((output_idx, raw) # rest) outs =
     (let output_num = output_idx + 1;
          input_num = (if raw = DISCONNECTED_VALUE then None else Some (raw + 1))
      in parse_loop rest
           (dict_set outs output_num
              \<lparr>output_number = output_num, input_number = input_num, raw_value = raw\<rparr>))"

definition parse_status_array :: "int list \<Rightarrow> pyfloat \<Rightarrow> MatrixState" where
  "parse_status_array status_array now =
     \<lparr>outputs = parse_loop (py_enumerate status_array) [], timestamp = now\<rparr>"

text \<open>
  The entry the parser is expected to store for output \<open>k\<close> when the device reports
  the raw code \<open>raw\<close> there (used to state the parser's properties).
\<close>

definition entry_of :: "int \<Rightarrow> int \<Rightarrow> MatrixOutput" where
  "entry_of k raw =
     \<lparr>output_number = k,
      input_number = (if raw = 65535 then None else Some (raw + 1)),
      raw_value = raw\<rparr>"

section \<open>Values exchanged with the device\<close>

subsection \<open>Parsed response bodies\<close>

text \<open>
  What \<open>resp.json()\<close> returns, and what the poller caches: \<open>None\<close>, a bool, an int, a
  float, a str, a list or a dict (keys in insertion order, each key once).
\<close>

datatype json =
    JNull
  | JBool bool
  | JInt int
  | JFloat pyfloat
  | JStr string
  | JArr "json list"
  | JObj "(string \<times> json) list"

subsection \<open>Exceptions\<close>

text \<open>
  The exception classes of api.py (\<open>ConnectionError\<close>, \<open>InvalidResponseError\<close>,
  \<open>CommandError\<close>), the host's \<open>UpdateFailed\<close>, and the built-in exceptions the
  interpreter raises in the modelled code. Each carries its message, \<open>str(e)\<close>. The
  message of the \<open>ValueError\<close> of \<open>int()\<close> is given without the \<open>repr\<close> of the
  offending string that Python appends.
\<close>

datatype error =
    ConnectionError string
  | InvalidResponseError string
  | CommandError string
  | UpdateFailed string
  | ValueError string
  | TypeError string
  | AttributeError string
  | IndexError string
  | UnicodeDecodeError string

fun str_error :: "error \<Rightarrow> string" where
  "str_error (ConnectionError m) = m"
| "str_error (InvalidResponseError m) = m"
| "str_error (CommandError m) = m"
| "str_error (UpdateFailed m) = m"
| "str_error (ValueError m) = m"
| "str_error (TypeError m) = m"
| "str_error (AttributeError m) = m"
| "str_error (IndexError m) = m"
| "str_error (UnicodeDecodeError m) = m"

subsection \<open>Operations of the interpreter on parsed values\<close>

text \<open>\<open>bool(x)\<close>, as \<open>if not self.data\<close> evaluates it.\<close>

fun py_truthy :: "json \<Rightarrow> bool" where
  "py_truthy JNull = False"
| "py_truthy (JBool b) = b"
| "py_truthy (JInt i) = (i \<noteq> 0)"
| "py_truthy (JFloat (PyFloat m e)) = (m \<noteq> 0)"
| "py_truthy (JFloat PyNegZero) = False"
| "py_truthy (JFloat (PyInf negative)) = True"
| "py_truthy (JFloat PyNaN) = True"
| "py_truthy (JStr s) = (s \<noteq> [])"
| "py_truthy (JArr xs) = (xs \<noteq> [])"
| "py_truthy (JObj kvs) = (kvs \<noteq> [])"

text \<open>\<open>type(x).__name__\<close>, and the message of the \<open>AttributeError\<close> for a missing attribute.\<close>

fun type_name :: "json \<Rightarrow> string" where
  "type_name JNull = ''NoneType''"
| "type_name (JBool b) = ''bool''"
| "type_name (JInt i) = ''int''"
| "type_name (JFloat f) = ''float''"
| "type_name (JStr s) = ''str''"
| "type_name (JArr xs) = ''list''"
| "type_name (JObj kvs) = ''dict''"

definition no_attribute :: "json \<Rightarrow> string \<Rightarrow> error" where
  "no_attribute x name =
     AttributeError ([CHR 0x27] @ type_name x @ [CHR 0x27] @ '' object has no attribute ''
                     @ [CHR 0x27] @ name @ [CHR 0x27])"

text \<open>\<open>x.get(key, default)\<close>: only a dict has the method.\<close>

fun py_get :: "json \<Rightarrow> string \<Rightarrow> json \<Rightarrow> error + json" where
  "py_get (JObj kvs) k d = Inr (case map_of kvs k of Some v \<Rightarrow> v | None \<Rightarrow> d)"
| "py_get x k d = Inl (no_attribute x ''get'')"

text \<open>
  The elements of a status array. \<open>status_ints\<close> reads a list whose elements are all
  ints, the type \<open>parse_status_array\<close> is annotated with. The parser also runs on the
  other numbers, a bool or a float. On \<open>None\<close>, a str, a list or a dict the comparison
  with 65535 is false and \<open>raw_value + 1\<close> raises the \<open>TypeError\<close> of \<open>plus_one_error\<close>.
\<close>

fun as_int :: "json \<Rightarrow> int option" where
  "as_int (JInt i) = Some i"
| "as_int x = None"

fun is_number :: "json \<Rightarrow> bool" where
  "is_number (JInt i) = True"
| "is_number (JBool b) = True"
| "is_number (JFloat f) = True"
| "is_number x = False"

fun plus_one_error :: "json \<Rightarrow> error" where
  \<open>plus_one_error (JStr s) = TypeError ''can only concatenate str (not "int") to str''\<close>
| \<open>plus_one_error (JArr xs) = TypeError ''can only concatenate list (not "int") to list''\<close>
| \<open>plus_one_error x =
     TypeError (''unsupported operand type(s) for +: '' @ [CHR 0x27] @ type_name x @ [CHR 0x27]
                @ '' and '' @ [CHR 0x27] @ ''int'' @ [CHR 0x27])\<close>

text \<open>The first element of a list that is not a number, if there is one.\<close>

fun first_non_number :: "json list \<Rightarrow> json option" where
  "first_non_number [] = None"
| "first_non_number (x # xs) = (if is_number x then first_non_number xs else Some x)"

fun status_ints :: "json list \<Rightarrow> int list option" where
  "status_ints [] = Some []"
| "status_ints (x # xs) =
     (case as_int x of
        None \<Rightarrow> None
      | Some i \<Rightarrow> (case status_ints xs of None \<Rightarrow> None | Some is \<Rightarrow> Some (i # is)))"

text \<open>\<open>s.split(sep)\<close> for a one-character separator.\<close>

fun split_on :: "char \<Rightarrow> string \<Rightarrow> string list" where
  "split_on sep [] = [[]]"
| "split_on sep (c # cs) =
     (if c = sep then [] # split_on sep cs
      else (case split_on sep cs of
              p # ps \<Rightarrow> (c # p) # ps
            | [] \<Rightarrow> [[c]]))"

text \<open>
  \<open>int(s)\<close> for a str of code points below 256: surrounding whitespace is dropped, one
  sign is allowed, and the digits may be grouped by single underscores. Anything else
  raises \<open>ValueError\<close>. The whitespace \<open>int()\<close> drops is the ASCII whitespace (tab, line
  feed, vertical tab, form feed, carriage return, space) and, turned into spaces first,
  the whitespace from code point 128 on (U+0085 and U+00A0); the separators U+001C to
  U+001F are not dropped.
\<close>

definition is_space :: "char \<Rightarrow> bool" where
  "is_space c = ((of_char c :: nat) \<in> set [9, 10, 11, 12, 13, 32, 133, 160])"

definition strip :: "string \<Rightarrow> string" where
  "strip s = rev (dropWhile is_space (rev (dropWhile is_space s)))"

definition is_digit :: "char \<Rightarrow> bool" where
  "is_digit c = (48 \<le> (of_char c :: nat) \<and> (of_char c :: nat) \<le> 57)"

fun digits_value :: "nat \<Rightarrow> string \<Rightarrow> nat" where
  "digits_value acc [] = acc"
| "digits_value acc (c # cs) = digits_value (10 * acc + (of_char c - 48)) cs"

fun underscores_ok :: "string \<Rightarrow> bool" where
  "underscores_ok (a # b # cs) =
     (if a = CHR ''_'' \<and> b = CHR ''_'' then False else underscores_ok (b # cs))"
| "underscores_ok cs = True"

definition valid_int_body :: "string \<Rightarrow> bool" where
  "valid_int_body body =
     (if body = [] then False
      else is_digit (hd body) \<and> is_digit (last body)
           \<and> list_all (\<lambda>c. is_digit c \<or> c = CHR ''_'') body
           \<and> underscores_ok body)"

definition py_int :: "string \<Rightarrow> error + int" where
  "py_int s =
     (let t = strip s;
          negative = (case t of c # r \<Rightarrow> c = CHR ''-'' | [] \<Rightarrow> False);
          body = (case t of c # r \<Rightarrow> (if c = CHR ''-'' \<or> c = CHR ''+'' then r else t) | [] \<Rightarrow> t)
      in if valid_int_body body
         then Inr ((if negative then - 1 else 1)
                   * int (digits_value 0 (filter (\<lambda>c. c \<noteq> CHR ''_'') body)))
         else Inl (ValueError ''invalid literal for int() with base 10''))"

subsection \<open>json.dumps and urllib.parse.quote\<close>

text \<open>
  The values the program serialises: strings, integers, lists and dicts of them.
  \<open>json_dumps item_sep key_sep\<close> is \<open>json.dumps(v, separators=(item_sep, key_sep))\<close>
  with the default \<open>ensure_ascii\<close>; without \<open>separators\<close> Python uses \<open>", "\<close> and
  \<open>": "\<close>.
\<close>

datatype payload =
    PInt int
  | PStr string
  | PList "payload list"
  | PDict "(string \<times> payload) list"

definition hex_digit_lower :: "nat \<Rightarrow> char" where
  "hex_digit_lower d = (if d < 10 then char_of (48 + d) else char_of (87 + d))"

definition hex_digit_upper :: "nat \<Rightarrow> char" where
  "hex_digit_upper d = (if d < 10 then char_of (48 + d) else char_of (55 + d))"

definition escape_char :: "char \<Rightarrow> string" where
  "escape_char c =
     (let n = (of_char c :: nat) in
      if n = 34 then [CHR 0x5C, CHR 0x22]
      else if n = 92 then [CHR 0x5C, CHR 0x5C]
      else if n = 10 then [CHR 0x5C, CHR ''n'']
      else if n = 13 then [CHR 0x5C, CHR ''r'']
      else if n = 9 then [CHR 0x5C, CHR ''t'']
      else if n = 8 then [CHR 0x5C, CHR ''b'']
      else if n = 12 then [CHR 0x5C, CHR ''f'']
      else if n < 32 \<or> 126 < n
        then [CHR 0x5C, CHR ''u'', CHR ''0'', CHR ''0'',
              hex_digit_lower (n div 16), hex_digit_lower (n mod 16)]
      else [c])"

definition dumps_str :: "string \<Rightarrow> string" where
  "dumps_str s = CHR 0x22 # concat (map escape_char s) @ [CHR 0x22]"

fun json_dumps :: "string \<Rightarrow> string \<Rightarrow> payload \<Rightarrow> string" where
  "json_dumps item_sep key_sep (PInt i) = str_int i"
| "json_dumps item_sep key_sep (PStr s) = dumps_str s"
| "json_dumps item_sep key_sep (PList xs) =
     ''['' @ join item_sep (map (json_dumps item_sep key_sep) xs) @ '']''"
| "json_dumps item_sep key_sep (PDict kvs) =
     ''{'' @ join item_sep
              (map (\<lambda>kv. dumps_str (fst kv) @ key_sep @ json_dumps item_sep key_sep (snd kv)) kvs)
         @ ''}''"

text \<open>
  \<open>quote s safe\<close> is \<open>urllib.parse.quote(s, safe=safe)\<close>: letters, digits and \<open>_.-~\<close>
  are kept, every other character becomes the \<open>%XX\<close> of each byte of its UTF-8
  encoding (two bytes from code point 128 on).
\<close>

definition percent_byte :: "nat \<Rightarrow> string" where
  "percent_byte b = [CHR ''%'', hex_digit_upper (b div 16), hex_digit_upper (b mod 16)]"

definition always_safe :: "char \<Rightarrow> bool" where
  "always_safe c =
     (let n = (of_char c :: nat) in
      (65 \<le> n \<and> n \<le> 90) \<or> (97 \<le> n \<and> n \<le> 122) \<or> (48 \<le> n \<and> n \<le> 57)
      \<or> c \<in> set ''_.-~'')"

definition quote_char :: "string \<Rightarrow> char \<Rightarrow> string" where
  "quote_char safe c =
     (let n = (of_char c :: nat) in
      if always_safe c \<or> c \<in> set safe then [c]
      else if n < 128 then percent_byte n
      else percent_byte (192 + n div 64) @ percent_byte (128 + n mod 64))"

definition quote :: "string \<Rightarrow> string \<Rightarrow> string" where
  "quote s safe = concat (map (quote_char safe) s)"

section \<open>The HTTP session\<close>

text \<open>
  One \<open>session.get(url, params=..., headers=..., timeout=...)\<close>. The device and the
  network are the environment: a \<open>device\<close> maps the calls made so far and the
  current call to what comes back, which is a timeout (\<open>asyncio.TimeoutError\<close>), a
  client error (\<open>aiohttp.ClientError\<close>), or a response with its status, its body and
  what parsing the body as JSON gives (\<open>Inl\<close>: \<open>resp.json()\<close> raises, with that message).
  The body is what \<open>resp.text()\<close> gives: the text, or, when the bytes cannot be decoded,
  a \<open>UnicodeDecodeError\<close> with its message.
  Logging has no effect on the results and is left out.
\<close>

datatype body_text = Text string | Undecodable string

record session_get_call =
  url :: string
  params :: "(string \<times> string) list option"
  headers :: "(string \<times> string) list"
  timeout :: "int option"

datatype reply =
    TimeoutError string
  | ClientError string
  | Response int body_text "string + json"

type_synonym device = "session_get_call list \<Rightarrow> session_get_call \<Rightarrow> reply"

text \<open>
  What the program does to the outside world, in order: the calls on the session and the
  runs of the registered change callback.
\<close>

datatype event = Call session_get_call | CallbackRun

fun calls :: "event list \<Rightarrow> session_get_call list" where
  "calls [] = []"
| "calls (Call c # es) = c # calls es"
| "calls (CallbackRun # es) = calls es"

definition session_get :: "device \<Rightarrow> session_get_call \<Rightarrow> event list \<Rightarrow> reply \<times> event list" where
  "session_get dev call tr = (dev (calls tr) call, tr @ [Call call])"

section \<open>HDTVMatrixApi (api.py)\<close>

datatype APIEndpoint = STATUS | COMMAND | SPLICE

fun endpoint_value :: "APIEndpoint \<Rightarrow> string" where
  "endpoint_value STATUS = ''get_json_scene.php''"
| "endpoint_value COMMAND = ''get_json_cmd.php''"
| "endpoint_value SPLICE = ''get_json_splice.php''"

definition OUTPUT_TO_OUTPUT :: string where
  "OUTPUT_TO_OUTPUT = ''o2ox''"

text \<open>
  A change callback is a function of the host: run, it returns or raises.
  The client holds its normalised base URL, the total of its \<open>ClientTimeout\<close> and the
  callback slot.
\<close>

datatype ChangeCallback = ChangeCallback (raises: bool)

record HDTVMatrixApi =
  base_url :: string
  timeout_total :: int
  change_callback :: "ChangeCallback option"

definition rstrip_chars :: "string \<Rightarrow> string \<Rightarrow> string" where
  "rstrip_chars chars s = rev (dropWhile (\<lambda>c. c \<in> set chars) (rev s))"

definition HDTVMatrixApi_init :: "string \<Rightarrow> int \<Rightarrow> HDTVMatrixApi" where
  "HDTVMatrixApi_init base timeout_s =
     \<lparr>base_url = rstrip_chars ''/'' base @ ''/'',
      timeout_total = timeout_s,
      change_callback = None\<rparr>"


text \<open>
  \<open>notify_change\<close>: the callback runs when one is registered; what it raises is caught
  and logged, so nothing reaches the caller in either case.
\<close>

definition notify_change :: "HDTVMatrixApi \<Rightarrow> event list \<Rightarrow> event list" where
  "notify_change c tr =
     (case change_callback c of
        None \<Rightarrow> tr
      | Some cb \<Rightarrow> tr @ [CallbackRun])"

definition build_headers :: "(string \<times> string) list" where
  "build_headers = [(''Content-Type'', ''application/json'')]"

subsection \<open>The transport: \<open>_execute_request\<close>\<close>

record HTTPResponse =
  status_code :: int
  data :: json
  success :: bool
  error_message :: "string option"

text \<open>How an f-string writes an \<open>Optional[str]\<close>.\<close>

definition fmt_opt :: "string option \<Rightarrow> string" where
  "fmt_opt m = (case m of None \<Rightarrow> ''None'' | Some s \<Rightarrow> s)"

definition execute_request ::
  "HDTVMatrixApi \<Rightarrow> device \<Rightarrow> APIEndpoint \<Rightarrow> (string \<times> string) list option \<Rightarrow> event list
     \<Rightarrow> (error + HTTPResponse) \<times> event list" where
  "execute_request c dev endpoint prms tr =
     (let url = base_url c @ endpoint_value endpoint;
          hdrs = build_headers
      in case session_get dev
                \<lparr>url = url, params = prms, headers = hdrs, timeout = Some (timeout_total c)\<rparr> tr of
           (TimeoutError m, tr') \<Rightarrow>
             (Inl (ConnectionError (''Request timeout after '' @ str_int (timeout_total c) @ ''s'')), tr')
         | (ClientError m, tr') \<Rightarrow>
             (Inl (ConnectionError (''Connection error: '' @ m)), tr')
         | (Response status body parsed, tr') \<Rightarrow>
             (case (case parsed of
                      Inr d \<Rightarrow>
                        Inr \<lparr>status_code = status, data = d, success = (status = 200),
                             error_message =
                               (if status = 200 then None else Some (''HTTP '' @ str_int status))\<rparr>
                    | Inl json_error \<Rightarrow>
                        (case body of
                           Undecodable m \<Rightarrow> Inl (UnicodeDecodeError m)
                         | Text text \<Rightarrow>
                             Inr \<lparr>status_code = status, data = JStr text, success = False,
                                  error_message = Some (''JSON parse error: '' @ json_error)\<rparr>)) of
                Inl e \<Rightarrow> (Inl e, tr')
              | Inr response \<Rightarrow>
                  (if \<not> success response then
                     (if status \<ge> 500 then
                        (Inl (ConnectionError (''Server error: '' @ fmt_opt (error_message response))), tr')
                      else if status \<ge> 400 then
                        (Inl (InvalidResponseError (''Client error: '' @ fmt_opt (error_message response))), tr')
                      else (Inr response, tr'))
                   else (Inr response, tr'))))"

subsection \<open>\<open>MatrixState.to_dict\<close> and \<open>get_status\<close>\<close>

definition json_of_input :: "int option \<Rightarrow> json" where
  "json_of_input i = (case i of None \<Rightarrow> JNull | Some n \<Rightarrow> JInt n)"

fun to_dict_loop :: "(int \<times> MatrixOutput) list \<Rightarrow> (string \<times> json) list \<Rightarrow> (string \<times> json) list" where
  "to_dict_loop [] matrix_dict = matrix_dict"
| "to_dict_loop ((num, out) # rest) matrix_dict =
     to_dict_loop rest
       (dict_set matrix_dict (''output_'' @ str_int num)
          (JObj [(''input'', json_of_input (input_number out)),
                 (''raw_value'', JInt (raw_value out))]))"

definition to_dict :: "MatrixState \<Rightarrow> json" where
  "to_dict st =
     JObj [(''matrix'', JObj (to_dict_loop (outputs st) [])),
           (''total_outputs'', JInt (total_outputs st)),
           (''timestamp'', JFloat (timestamp st))]"

text \<open>
  The same two functions on a list of numbers that are not all ints. The state model
  above is typed as annotated (\<open>raw_value: int\<close>); at run time a bool or a float passes
  through the parser as well, so here the entries are written as the values they are. For
  an int the entry is as above. For a bool the comparison with 65535 is false and
  \<open>raw_value + 1\<close> is the int 1 or 2. For a float the comparison and the sum are
  floating-point operations: \<open>float_input\<close>, a parameter, is the \<open>input_number\<close> the
  parser computes for a float (\<open>None\<close> if it equals 65535, otherwise the float plus
  one).
\<close>

type_synonym float_input = "pyfloat \<Rightarrow> json"

fun number_input :: "float_input \<Rightarrow> json \<Rightarrow> json" where
  "number_input fi (JInt i) = (if i = DISCONNECTED_VALUE then JNull else JInt (i + 1))"
| "number_input fi (JBool b) = JInt ((if b then 1 else 0) + 1)"
| "number_input fi (JFloat f) = fi f"
| "number_input fi x = JNull"

fun numbers_loop ::
  "float_input \<Rightarrow> (int \<times> json) list \<Rightarrow> (string \<times> json) list \<Rightarrow> (string \<times> json) list" where
  "numbers_loop fi [] matrix_dict = matrix_dict"
| "numbers_loop fi ((output_idx, raw) # rest) matrix_dict =
     numbers_loop fi rest
       (dict_set matrix_dict (''output_'' @ str_int (output_idx + 1))
          (JObj [(''input'', number_input fi raw), (''raw_value'', raw)]))"

definition to_dict_numbers :: "float_input \<Rightarrow> json list \<Rightarrow> pyfloat \<Rightarrow> json" where
  "to_dict_numbers fi xs now =
     JObj [(''matrix'', JObj (numbers_loop fi (py_enumerate xs) [])),
           (''total_outputs'', JInt (int (length xs))),
           (''timestamp'', JFloat now)]"

text \<open>
  \<open>get_status\<close>: a list is parsed and converted to the legacy dict; anything else is
  returned as it is. The caller supplies \<open>float_input\<close> and the clock reading used for
  the timestamp. On a list with an element that is not a number the parser raises at the
  first such element.
\<close>

definition get_status ::
  "HDTVMatrixApi \<Rightarrow> device \<Rightarrow> float_input \<Rightarrow> pyfloat \<Rightarrow> event list
     \<Rightarrow> (error + json) \<times> event list" where
  "get_status c dev fi now tr =
     (case execute_request c dev STATUS (Some [(''id'', ''0'')]) tr of
        (Inl e, tr') \<Rightarrow> (Inl e, tr')
      | (Inr response, tr') \<Rightarrow>
          (case data response of
             JArr xs \<Rightarrow>
               (case status_ints xs of
                  Some status_array \<Rightarrow> (Inr (to_dict (parse_status_array status_array now)), tr')
                | None \<Rightarrow>
                    (case first_non_number xs of
                       None \<Rightarrow> (Inr (to_dict_numbers fi xs now), tr')
                     | Some x \<Rightarrow> (Inl (plus_one_error x), tr')))
           | d \<Rightarrow> (Inr d, tr')))"

subsection \<open>\<open>set_route\<close> and \<open>set_all_to_input\<close>\<close>

definition set_route ::
  "HDTVMatrixApi \<Rightarrow> device \<Rightarrow> int \<Rightarrow> int \<Rightarrow> event list \<Rightarrow> (error + json) \<times> event list" where
  "set_route c dev input_port output_port tr =
     (let input_idx = input_port - 1;
          output_idx = output_port - 1;
          prms = [(''cmd'', OUTPUT_TO_OUTPUT),
                  (''prm'', str_int input_idx @ '','' @ str_int output_idx)]
      in case execute_request c dev COMMAND (Some prms) tr of
           (Inr response, tr') \<Rightarrow> (Inr (data response), notify_change c tr')
         | (Inl e, tr') \<Rightarrow>
             (case e of
                ConnectionError m \<Rightarrow> (Inl (CommandError (''Failed to set route: '' @ str_error e)), tr')
              | InvalidResponseError m \<Rightarrow> (Inl (CommandError (''Failed to set route: '' @ str_error e)), tr')
              | _ \<Rightarrow> (Inl e, tr')))"

fun set_all_loop ::
  "HDTVMatrixApi \<Rightarrow> device \<Rightarrow> int \<Rightarrow> int list \<Rightarrow> string list \<Rightarrow> event list
     \<Rightarrow> string list \<times> event list" where
  "set_all_loop c dev input_port [] errors tr = (errors, tr)"
| "set_all_loop c dev input_port (num # rest) errors tr =
     (case set_route c dev input_port num tr of
        (Inr r, tr') \<Rightarrow> set_all_loop c dev input_port rest errors tr'
      | (Inl e, tr') \<Rightarrow>
          set_all_loop c dev input_port rest
            (errors @ [''num_outputs '' @ str_int num @ '': '' @ str_error e]) tr')"

definition set_all_to_input ::
  "HDTVMatrixApi \<Rightarrow> device \<Rightarrow> int \<Rightarrow> int \<Rightarrow> event list \<Rightarrow> (error + unit) \<times> event list" where
  "set_all_to_input c dev input_port num_outputs tr =
     (case set_all_loop c dev input_port [1..num_outputs] [] tr of
        (errors, tr') \<Rightarrow>
          (if errors \<noteq> [] then
             (Inl (CommandError (''Failed to set all num_outputs: '' @ join ''; '' errors)), tr')
           else (Inr (), tr')))"

subsection \<open>\<open>test_connection\<close>\<close>

definition test_connection ::
  "HDTVMatrixApi \<Rightarrow> device \<Rightarrow> float_input \<Rightarrow> pyfloat \<Rightarrow> event list
     \<Rightarrow> (error + bool) \<times> event list" where
  "test_connection c dev fi now tr =
     (case get_status c dev fi now tr of
        (Inr d, tr') \<Rightarrow> (Inr True, tr')
      | (Inl e, tr') \<Rightarrow> (Inr False, tr'))"

subsection \<open>\<open>set_splice_and_video\<close>: the videowall preset\<close>

record splice_case =
  prm :: string
  splice :: "string list"

definition splice_cases :: "splice_case list" where
  "splice_cases =
     [\<lparr>prm = ''1,1,1,2,2,1,'', splice = [''1'', ''-1'', ''-1'', ''-1'']\<rparr>,
      \<lparr>prm = ''2,1,2,2,2,1,'', splice = [''1'', ''2'', ''-1'', ''-1'']\<rparr>,
      \<lparr>prm = ''3,1,3,2,2,1,'', splice = [''1'', ''2'', ''3'', ''-1'']\<rparr>,
      \<lparr>prm = ''4,1,4,2,2,1,'', splice = [''1'', ''2'', ''3'', ''4'']\<rparr>]"

text \<open>
  The first half of the loop body: the \<open>cmd=splice\<close> call. The query string is part of
  the URL here, no \<open>params\<close> are passed. The body is read with \<open>resp.text()\<close> before
  the status is looked at, so a body that cannot be decoded raises
  \<open>UnicodeDecodeError\<close> whatever the status. A status other than 200 raises
  \<open>CommandError\<close>. Neither \<open>except\<close> clause of this block catches these two.
\<close>

definition splice_cmd_call :: "HDTVMatrixApi \<Rightarrow> splice_case \<Rightarrow> session_get_call" where
  "splice_cmd_call c cs =
     (let cmd_url = base_url c @ ''/get_json_cmd.php'';
          full_cmd_url = cmd_url @ ''?cmd=splice&prm='' @ prm cs
      in \<lparr>url = full_cmd_url, params = None, headers = build_headers,
          timeout = Some (timeout_total c)\<rparr>)"

definition splice_cmd_step ::
  "HDTVMatrixApi \<Rightarrow> device \<Rightarrow> int \<Rightarrow> splice_case \<Rightarrow> event list \<Rightarrow> (error + unit) \<times> event list" where
  "splice_cmd_step c dev idx cs tr =
     (case session_get dev (splice_cmd_call c cs) tr of
        (TimeoutError m, tr') \<Rightarrow>
          (Inl (ConnectionError (''Splice CMD timeout after '' @ str_int (timeout_total c) @ ''s'')), tr')
      | (ClientError m, tr') \<Rightarrow>
          (Inl (ConnectionError (''Splice CMD connection error: '' @ m)), tr')
      | (Response status body parsed, tr') \<Rightarrow>
          (case body of
             Undecodable m \<Rightarrow> (Inl (UnicodeDecodeError m), tr')
           | Text text \<Rightarrow>
               (let success = (status = 200);
                    error_msg = (if success then None else Some (''HTTP '' @ str_int status))
                in if \<not> success then
                     (Inl (CommandError (''Splice CMD failed (case '' @ str_int idx @ ''): ''
                                         @ fmt_opt error_msg)), tr')
                   else (Inr (), tr'))))"

text \<open>
  The second half: the call to \<open>get_json_splice.php\<close>. The payload is written with
  \<open>json.dumps\<close> and its default separators, \<open>x\<close> and \<open>y\<close> are the strings \<open>"2"\<close>.
  The body is read only when the status is not 200. Every exception of this block, the
  \<open>CommandError\<close> of a status other than 200 and the \<open>UnicodeDecodeError\<close> of a body
  that cannot be decoded included, is caught by \<open>except Exception\<close> and raised again as
  a \<open>CommandError\<close>.
\<close>

definition splice_payload :: "splice_case \<Rightarrow> payload" where
  "splice_payload cs =
     PList [PDict [(''x'', PStr ''2''), (''y'', PStr ''2''), (''data'', PList (map PStr (splice cs)))]]"

definition splice_data_call :: "HDTVMatrixApi \<Rightarrow> splice_case \<Rightarrow> session_get_call" where
  "splice_data_call c cs =
     (let splice_url = base_url c @ ''get_json_splice.php'';
          prms = [(''splice'', json_dumps '', '' '': '' (splice_payload cs))]
      in \<lparr>url = splice_url, params = Some prms, headers = build_headers,
          timeout = Some (timeout_total c)\<rparr>)"

definition splice_data_step ::
  "HDTVMatrixApi \<Rightarrow> device \<Rightarrow> int \<Rightarrow> splice_case \<Rightarrow> event list \<Rightarrow> (error + unit) \<times> event list" where
  "splice_data_step c dev idx cs tr =
     (let wrap = (\<lambda>e. CommandError (''Error configurando videowall DATA (case '' @ str_int idx
                                     @ ''): '' @ e))
      in case session_get dev (splice_data_call c cs) tr of
           (TimeoutError m, tr') \<Rightarrow> (Inl (wrap m), tr')
         | (ClientError m, tr') \<Rightarrow> (Inl (wrap m), tr')
         | (Response status body parsed, tr') \<Rightarrow>
             (if status \<noteq> 200 then
                (case body of
                   Undecodable m \<Rightarrow> (Inl (wrap m), tr')
                 | Text text \<Rightarrow>
                     (Inl (wrap (''Videowall splice DATA failed (case '' @ str_int idx @ ''): HTTP ''
                                 @ str_int status @ '' - '' @ text)), tr'))
              else (Inr (), tr')))"

fun splice_loop ::
  "HDTVMatrixApi \<Rightarrow> device \<Rightarrow> (int \<times> splice_case) list \<Rightarrow> event list \<Rightarrow> (error + unit) \<times> event list" where
  "splice_loop c dev [] tr = (Inr (), tr)"
| "splice_loop c dev ((idx, cs) # rest) tr =
     (case splice_cmd_step c dev idx cs tr of
        (Inl e, tr1) \<Rightarrow> (Inl e, tr1)
      | (Inr u, tr1) \<Rightarrow>
          (case splice_data_step c dev idx cs tr1 of
             (Inl e, tr2) \<Rightarrow> (Inl e, tr2)
           | (Inr u, tr2) \<Rightarrow> splice_loop c dev rest tr2))"

definition set_splice_and_video ::
  "HDTVMatrixApi \<Rightarrow> device \<Rightarrow> event list \<Rightarrow> (error + unit) \<times> event list" where
  "set_splice_and_video c dev tr =
     (case splice_loop c dev (enumerate_from 1 splice_cases) tr of
        (Inl e, tr') \<Rightarrow> (Inl e, tr')
      | (Inr u, tr') \<Rightarrow> (Inr (), notify_change c tr'))"

subsection \<open>\<open>SplicePayloadBuilder.build_payload\<close>\<close>

text \<open>
  \<open>data\<close> is optional. The dict is written with the literals \<open>"x": 2, "y": 2\<close>, then
  serialised compactly and percent-encoded with no safe characters.
\<close>

definition build_payload :: "int \<Rightarrow> int \<Rightarrow> string list option \<Rightarrow> error + string" where
  "build_payload num_inputs num_outputs data_arg =
     (case (case data_arg of
              None \<Rightarrow> Inr (replicate (nat (num_inputs * num_outputs)) ''-1'')
            | Some d \<Rightarrow>
                (if int (length d) \<noteq> num_inputs * num_outputs then
                   Inl (ValueError (''Data length must be '' @ str_int (num_inputs * num_outputs)
                          @ '' (num_inputs * num_outputs), got '' @ str_int (int (length d))))
                 else Inr d)) of
        Inl e \<Rightarrow> Inl e
      | Inr d \<Rightarrow>
          (let pl = PList [PDict [(''x'', PInt 2), (''y'', PInt 2), (''data'', PList (map PStr d))]];
               json_str = json_dumps '','' '':'' pl
           in Inr (quote json_str [])))"

text \<open>
  The payload the documentation of \<open>build_payload\<close> describes (\<open>num_inputs\<close> is \<open>x\<close>,
  \<open>num_outputs\<close> is \<open>y\<close>), for comparison with what the code builds.
\<close>

definition documented_payload :: "int \<Rightarrow> int \<Rightarrow> string list \<Rightarrow> string" where
  "documented_payload num_inputs num_outputs d =
     quote (json_dumps '','' '':''
              (PList [PDict [(''x'', PInt num_inputs), (''y'', PInt num_outputs),
                             (''data'', PList (map PStr d))]])) []"

section \<open>HDTVCoordinator (coordinator.py)\<close>

text \<open>
  The poller. \<open>coordinator_data\<close> is the attribute \<open>self.data\<close> and
  \<open>last_update_success\<close> the attribute of that name; both belong to the base class
  \<open>DataUpdateCoordinator\<close> of the host platform, which starts with no data and
  \<open>last_update_success = True\<close>.
\<close>

record HDTVCoordinator =
  coordinator_data :: "json option"
  last_update_success :: bool
  consecutive_failures :: int
  max_failures_before_warning :: int

definition HDTVCoordinator_init :: HDTVCoordinator where
  "HDTVCoordinator_init =
     \<lparr>coordinator_data = None, last_update_success = True,
      consecutive_failures = 0, max_failures_before_warning = 3\<rparr>"

text \<open>
  \<open>_async_update_data\<close>. The counter is reset right after \<open>get_status\<close> returns; the
  argument \<open>data.get("total_outputs", 0)\<close> of the debug message is evaluated after
  that, inside the same \<open>try\<close>, so an \<open>AttributeError\<close> there reaches the last
  \<open>except\<close> clause.
\<close>

definition async_update_data ::
  "HDTVMatrixApi \<Rightarrow> device \<Rightarrow> float_input \<Rightarrow> pyfloat \<Rightarrow> HDTVCoordinator \<Rightarrow> event list
     \<Rightarrow> (error + json) \<times> HDTVCoordinator \<times> event list" where
  "async_update_data c dev fi now coord tr =
     (case get_status c dev fi now tr of
        (Inr d, tr') \<Rightarrow>
          (let coord1 = (if consecutive_failures coord > 0
                         then coord\<lparr>consecutive_failures := 0\<rparr> else coord)
           in case py_get d ''total_outputs'' (JInt 0) of
                Inr n \<Rightarrow> (Inr d, coord1, tr')
              | Inl err \<Rightarrow>
                  (Inl (UpdateFailed (''Unexpected error: '' @ str_error err)),
                   coord1\<lparr>consecutive_failures := consecutive_failures coord1 + 1\<rparr>, tr'))
      | (Inl err, tr') \<Rightarrow>
          (case err of
             ConnectionError m \<Rightarrow>
               (Inl (UpdateFailed (''Connection error: '' @ str_error err)),
                coord\<lparr>consecutive_failures := consecutive_failures coord + 1\<rparr>, tr')
           | InvalidResponseError m \<Rightarrow>
               (Inl (UpdateFailed (''Invalid response: '' @ str_error err)),
                coord\<lparr>consecutive_failures := consecutive_failures coord + 1\<rparr>, tr')
           | _ \<Rightarrow>
               (Inl (UpdateFailed (''Unexpected error: '' @ str_error err)),
                coord\<lparr>consecutive_failures := consecutive_failures coord + 1\<rparr>, tr')))"

text \<open>
  Modelled from the spec: the refresh of the host's \<open>DataUpdateCoordinator\<close>, which is
  not part of this repository. It calls \<open>_async_update_data\<close>; on success it replaces
  the cached snapshot and records that the last refresh succeeded, on \<open>UpdateFailed\<close>
  it keeps the snapshot and records that the last refresh failed.
\<close>

definition async_refresh ::
  "HDTVMatrixApi \<Rightarrow> device \<Rightarrow> float_input \<Rightarrow> pyfloat \<Rightarrow> HDTVCoordinator \<Rightarrow> event list
     \<Rightarrow> HDTVCoordinator \<times> event list" where
  "async_refresh c dev fi now coord tr =
     (case async_update_data c dev fi now coord tr of
        (Inr d, coord', tr') \<Rightarrow>
          (coord'\<lparr>coordinator_data := Some d, last_update_success := True\<rparr>, tr')
      | (Inl e, coord', tr') \<Rightarrow>
          (coord'\<lparr>last_update_success := False\<rparr>, tr'))"

subsection \<open>The read accessors\<close>

definition is_connected :: "HDTVCoordinator \<Rightarrow> bool" where
  "is_connected coord = (last_update_success coord \<and> coordinator_data coord \<noteq> None)"

definition get_output_state :: "HDTVCoordinator \<Rightarrow> int \<Rightarrow> error + json" where
  "get_output_state coord output_num =
     (case coordinator_data coord of
        None \<Rightarrow> Inr (JObj [])
      | Some d \<Rightarrow>
          (if \<not> py_truthy d then Inr (JObj [])
           else (case py_get d ''matrix'' (JObj []) of
                   Inl e \<Rightarrow> Inl e
                 | Inr matrix_data \<Rightarrow>
                     py_get matrix_data (''output_'' @ str_int output_num) (JObj []))))"

definition get_all_outputs :: "HDTVCoordinator \<Rightarrow> error + json" where
  "get_all_outputs coord =
     (case coordinator_data coord of
        None \<Rightarrow> Inr (JObj [])
      | Some d \<Rightarrow>
          (if \<not> py_truthy d then Inr (JObj [])
           else py_get d ''matrix'' (JObj [])))"

text \<open>
  The loop of \<open>get_connected_outputs\<close> over \<open>matrix_data.items()\<close>:
  \<open>output_data.get("input")\<close>, then \<open>int(output_key.split("_")[1])\<close>.
\<close>

fun connected_loop :: "(string \<times> json) list \<Rightarrow> int list \<Rightarrow> error + int list" where
  "connected_loop [] connected = Inr connected"
| "connected_loop ((output_key, output_data) # rest) connected =
     (case py_get output_data ''input'' JNull of
        Inl e \<Rightarrow> Inl e
      | Inr v \<Rightarrow>
          (if v \<noteq> JNull then
             (case split_on CHR ''_'' output_key of
                p0 # p1 # ps \<Rightarrow>
                  (case py_int p1 of
                     Inl e \<Rightarrow> Inl e
                   | Inr output_num \<Rightarrow> connected_loop rest (connected @ [output_num]))
              | _ \<Rightarrow> Inl (IndexError ''list index out of range''))
           else connected_loop rest connected))"

definition get_connected_outputs :: "HDTVCoordinator \<Rightarrow> error + int list" where
  "get_connected_outputs coord =
     (case coordinator_data coord of
        None \<Rightarrow> Inr []
      | Some d \<Rightarrow>
          (if \<not> py_truthy d then Inr []
           else (case py_get d ''matrix'' (JObj []) of
                   Inl e \<Rightarrow> Inl e
                 | Inr matrix_data \<Rightarrow>
                     (case matrix_data of
                        JObj kvs \<Rightarrow>
                          (case connected_loop kvs [] of
                             Inl e \<Rightarrow> Inl e
                           | Inr connected \<Rightarrow> Inr (sort connected))
                      | _ \<Rightarrow> Inl (no_attribute matrix_data ''items'')))))"

section \<open>Notions used to state the properties\<close>

text \<open>The call that \<open>_execute_request\<close> makes on the session for an endpoint and its parameters.\<close>

definition request_call ::
  "HDTVMatrixApi \<Rightarrow> APIEndpoint \<Rightarrow> (string \<times> string) list option \<Rightarrow> session_get_call" where
  "request_call c endpoint prms =
     \<lparr>url = base_url c @ endpoint_value endpoint, params = prms,
      headers = build_headers, timeout = Some (timeout_total c)\<rparr>"

text \<open>
  Whether \<open>get_status\<close> returns on a reply, read off \<open>_execute_request\<close> and
  \<open>get_status\<close>: the reply must be a response with a status below 400; when its body
  is not JSON the body must be readable as text, and when it is a JSON list the elements
  must be numbers (ints, bools or floats).
\<close>

fun status_reply_ok :: "reply \<Rightarrow> bool" where
  "status_reply_ok (TimeoutError m) = False"
| "status_reply_ok (ClientError m) = False"
| "status_reply_ok (Response status (Undecodable m) (Inl json_error)) = False"
| "status_reply_ok (Response status (Text body) (Inl json_error)) = (status < 400)"
| "status_reply_ok (Response status body (Inr (JArr xs))) = (status < 400 \<and> list_all is_number xs)"
| "status_reply_ok (Response status body (Inr d)) = (status < 400)"

text \<open>
  A \<open>float_input\<close> for the examples whose devices send no floats; it is not consulted
  there.
\<close>

definition example_float_input :: float_input where
  "example_float_input f = JNull"

text \<open>The call of \<open>set_route\<close> for an input and an output.\<close>

definition route_call :: "HDTVMatrixApi \<Rightarrow> int \<Rightarrow> int \<Rightarrow> session_get_call" where
  "route_call c inp outp =
     request_call c COMMAND
       (Some [(''cmd'', ''o2ox''), (''prm'', str_int (inp - 1) @ '','' @ str_int (outp - 1))])"

text \<open>
  The outputs among \<open>ks\<close> for which \<open>set_route\<close> raises when the routes are set one
  after the other, the session having seen the calls \<open>h\<close> before; each with the
  exception raised.
\<close>

fun route_failures ::
  "HDTVMatrixApi \<Rightarrow> device \<Rightarrow> int \<Rightarrow> session_get_call list \<Rightarrow> int list \<Rightarrow> (int \<times> error) list" where
  "route_failures c dev inp h [] = []"
| "route_failures c dev inp h (k # ks) =
     (case fst (set_route c dev inp k (map Call h)) of
        Inl e \<Rightarrow> [(k, e)]
      | Inr r \<Rightarrow> [])
     @ route_failures c dev inp (h @ [route_call c inp k]) ks"

text \<open>The line \<open>set_all_to_input\<close> records for a failed output.\<close>

definition fmt_failure :: "int \<times> error \<Rightarrow> string" where
  "fmt_failure f = ''num_outputs '' @ str_int (fst f) @ '': '' @ str_error (snd f)"

text \<open>
  A device for examples: it accepts the second call it sees and answers every other
  call with status 500.
\<close>

definition flaky_device :: device where
  "flaky_device h r =
     (if length h = 1 then Response 200 (Text ''[]'') (Inr (JArr []))
      else Response 500 (Text ''busy'') (Inr JNull))"

text \<open>
  The calls of the videowall preset, in the order of the loop: for each case its
  command call, then its splice-data call.
\<close>

definition pair_calls :: "HDTVMatrixApi \<Rightarrow> (int \<times> splice_case) list \<Rightarrow> session_get_call list" where
  "pair_calls c ics = concat (map (\<lambda>p. [splice_cmd_call c (snd p), splice_data_call c (snd p)]) ics)"

definition preset_calls :: "HDTVMatrixApi \<Rightarrow> session_get_call list" where
  "preset_calls c = pair_calls c (enumerate_from 1 splice_cases)"

text \<open>
  A good answer to a command call of the preset is a response with status 200 whose body
  can be read as text; a good answer to a splice-data call is a response with status 200
  (its body is not read).
\<close>

fun cmd_reply_ok :: "reply \<Rightarrow> bool" where
  "cmd_reply_ok (Response status (Text body) parsed) = (status = 200)"
| "cmd_reply_ok r = False"

fun data_reply_ok :: "reply \<Rightarrow> bool" where
  "data_reply_ok (Response status body parsed) = (status = 200)"
| "data_reply_ok r = False"

text \<open>
  \<open>first_bad c dev h ics\<close>: the session has seen the calls \<open>h\<close>, and the calls of the
  cases \<open>ics\<close> are made one after the other; the result is the position, in this
  sequence of calls, of the first call that does not get a good answer, or \<open>None\<close> when
  every call gets one.
\<close>

fun first_bad ::
  "HDTVMatrixApi \<Rightarrow> device \<Rightarrow> session_get_call list \<Rightarrow> (int \<times> splice_case) list \<Rightarrow> nat option" where
  "first_bad c dev h [] = None"
| "first_bad c dev h (p # rest) =
     (if cmd_reply_ok (dev h (splice_cmd_call c (snd p))) then
        (if data_reply_ok (dev (h @ [splice_cmd_call c (snd p)]) (splice_data_call c (snd p))) then
           map_option (\<lambda>j. j + 2)
             (first_bad c dev (h @ [splice_cmd_call c (snd p), splice_data_call c (snd p)]) rest)
         else Some 1)
      else Some 0)"

definition preset_first_bad :: "HDTVMatrixApi \<Rightarrow> device \<Rightarrow> session_get_call list \<Rightarrow> nat option" where
  "preset_first_bad c dev h = first_bad c dev h (enumerate_from 1 splice_cases)"

text \<open>A device for examples that answers every call with status 200.\<close>

definition ok_device :: device where
  "ok_device h r = Response 200 (Text ''{}'') (Inr (JObj []))"

text \<open>
  A client for examples, and a device that answers the call it receives after \<open>n\<close>
  earlier calls with status 503 and every other call with status 200.
\<close>

definition example_client :: HDTVMatrixApi where
  "example_client = HDTVMatrixApi_init ''http://matrix.local/'' 10"




text \<open>A device that answers the status request with the JSON body \<open>[1.5]\<close>.\<close>

definition float_device :: device where
  "float_device h r = Response 200 (Text ''[1.5]'') (Inr (JArr [JFloat (PyFloat 3 (- 1))]))"

text \<open>
  Running the host's refresh \<open>n\<close> times in a row, and a device for an outage example:
  it answers the first status request with the array \<open>[0, 65535, 2]\<close>, lets the next
  three time out, and then answers with status 200 and the JSON body \<open>null\<close>.
\<close>

fun refreshes ::
  "HDTVMatrixApi \<Rightarrow> device \<Rightarrow> float_input \<Rightarrow> pyfloat \<Rightarrow> nat \<Rightarrow> HDTVCoordinator \<times> event list
     \<Rightarrow> HDTVCoordinator \<times> event list" where
  "refreshes c dev fi now 0 s = s"
| "refreshes c dev fi now (Suc n) s =
     refreshes c dev fi now n (async_refresh c dev fi now (fst s) (snd s))"

definition outage_device :: device where
  "outage_device h r =
     (if length h = 0
      then Response 200 (Text ''[0, 65535, 2]'') (Inr (JArr [JInt 0, JInt 65535, JInt 2]))
      else if length h < 4 then TimeoutError ''''
      else Response 200 (Text ''null'') (Inr JNull))"

definition null_device :: device where
  "null_device h r = Response 200 (Text ''null'') (Inr JNull)"

text \<open>The poller after a good snapshot and three failed refreshes.\<close>

definition stale_coordinator :: HDTVCoordinator where
  "stale_coordinator =
     \<lparr>coordinator_data = Some (to_dict (parse_status_array [0, 65535, 2] (PyFloat 0 0))),
      last_update_success = False,
      consecutive_failures = 3,
      max_failures_before_warning = 3\<rparr>"

text \<open>
  The entry \<open>to_dict\<close> writes into the \<open>matrix\<close> dict for one output, and the entry it
  writes for output \<open>i + 1\<close> of a status array.
\<close>

definition matrix_entry :: "int \<times> MatrixOutput \<Rightarrow> string \<times> json" where
  "matrix_entry p =
     (''output_'' @ str_int (fst p),
      JObj [(''input'', json_of_input (input_number (snd p))), (''raw_value'', JInt (raw_value (snd p)))])"

definition status_entry :: "int list \<Rightarrow> nat \<Rightarrow> string \<times> json" where
  "status_entry A i =
     (''output_'' @ str_int (int i + 1),
      JObj [(''input'', if A ! i = 65535 then JNull else JInt (A ! i + 1)),
            (''raw_value'', JInt (A ! i))])"

text \<open>
  Devices for examples that answer the status request with a JSON object of another
  shape than the legacy dict.
\<close>

definition odd_device :: device where
  \<open>odd_device h r = Response 200 (Text ''{"matrix": 5}'') (Inr (JObj [(''matrix'', JInt 5)]))\<close>

definition odd_keys_device :: device where
  \<open>odd_keys_device h r =
     Response 200 (Text ''{"matrix": {"hdmi1": {"input": 1}}}'')
       (Inr (JObj [(''matrix'', JObj [(''hdmi1'', JObj [(''input'', JInt 1)])])]))\<close>

section \<open>Properties of the parser\<close>

lemma dict_set_fresh:
  "k \<notin> fst ` set ps \<Longrightarrow> dict_set ps k v = ps @ [(k, v)]"
  by (induction ps) auto

lemma parse_loop_append:
  "(\<And>k. k \<in> fst ` set acc \<Longrightarrow> k \<le> start) \<Longrightarrow>
   parse_loop (enumerate_from start xs) acc =
   acc @ map (\<lambda>j. (start + int j + 1, entry_of (start + int j + 1) (xs ! j))) [0..<length xs]"
proof (induction xs arbitrary: start acc)
  case Nil
  then show ?case by simp
next
  case (Cons x xs)
  let ?e = "entry_of (start + 1) x"
  have fresh: "start + 1 \<notin> fst ` set acc"
    using Cons.prems by force
  have keys: "\<And>k. k \<in> fst ` set (acc @ [(start + 1, ?e)]) \<Longrightarrow> k \<le> start + 1"
    using Cons.prems by force
  have step: "parse_loop (enumerate_from start (x # xs)) acc =
        parse_loop (enumerate_from (start + 1) xs) (acc @ [(start + 1, ?e)])"
    using fresh by (simp add: dict_set_fresh entry_of_def DISCONNECTED_VALUE_def Let_def)
  have shift: "map (\<lambda>j. (start + int j + 1, entry_of (start + int j + 1) ((x # xs) ! j))) [0..<length (x # xs)]
      = (start + 1, ?e) # map (\<lambda>j. (start + 1 + int j + 1, entry_of (start + 1 + int j + 1) (xs ! j))) [0..<length xs]"
    by (simp add: map_upt_Suc add.assoc add.left_commute del: upt_Suc)
  have "parse_loop (enumerate_from start (x # xs)) acc =
        parse_loop (enumerate_from (start + 1) xs) (acc @ [(start + 1, ?e)])"
    by (rule step)
  also have "\<dots> = (acc @ [(start + 1, ?e)]) @
        map (\<lambda>j. (start + 1 + int j + 1, entry_of (start + 1 + int j + 1) (xs ! j))) [0..<length xs]"
    by (rule Cons.IH [OF keys])
  also have "\<dots> = acc @ ((start + 1, ?e) #
        map (\<lambda>j. (start + 1 + int j + 1, entry_of (start + 1 + int j + 1) (xs ! j))) [0..<length xs])"
    by simp
  also have "\<dots> = acc @
        map (\<lambda>j. (start + int j + 1, entry_of (start + int j + 1) ((x # xs) ! j))) [0..<length (x # xs)]"
    by (simp only: shift)
  finally show ?case .
qed

lemma parse_status_array_outputs:
  "outputs (parse_status_array A now) =
     map (\<lambda>i. (int i + 1, entry_of (int i + 1) (A ! i))) [0..<length A]"
  using parse_loop_append [of "[]" 0 A]
  by (simp add: parse_status_array_def py_enumerate_def)

lemma parse_status_array_keys:
  "map fst (outputs (parse_status_array A now)) = map int [1..<Suc (length A)]"
proof -
  have "map fst (outputs (parse_status_array A now)) = map (\<lambda>i. int (Suc i)) [0..<length A]"
    by (simp add: parse_status_array_outputs o_def)
  also have "\<dots> = map int (map Suc [0..<length A])"
    by (simp add: o_def)
  also have "map Suc [0..<length A] = [1..<Suc (length A)]"
    by (simp add: map_Suc_upt)
  finally show ?thesis .
qed

lemma parse_status_array_lookup:
  assumes "1 \<le> k" and "k \<le> length A"
  shows "get_output (parse_status_array A now) (int k) = Some (entry_of (int k) (A ! (k - 1)))"
proof -
  have dist: "distinct (map fst (outputs (parse_status_array A now)))"
    by (simp add: parse_status_array_keys distinct_map inj_on_def)
  have "(int (k - 1) + 1, entry_of (int (k - 1) + 1) (A ! (k - 1)))
          \<in> set (outputs (parse_status_array A now))"
    unfolding parse_status_array_outputs using assms by (intro image_eqI [where x = "k - 1"] | simp)+
  moreover have "int (k - 1) + 1 = int k"
    using assms by simp
  ultimately have "(int k, entry_of (int k) (A ! (k - 1))) \<in> set (outputs (parse_status_array A now))"
    by simp
  then show ?thesis
    unfolding get_output_def using dist by simp
qed

lemma parse_status_array_absent:
  "get_output (parse_status_array A now) n = None \<longleftrightarrow> \<not> (1 \<le> n \<and> n \<le> int (length A))"
proof -
  have "get_output (parse_status_array A now) n = None
          \<longleftrightarrow> n \<notin> set (map fst (outputs (parse_status_array A now)))"
    unfolding get_output_def by (simp add: map_of_eq_None_iff)
  also have "\<dots> \<longleftrightarrow> n \<notin> int ` {1..<Suc (length A)}"
    unfolding parse_status_array_keys by (simp only: set_map set_upt)
  also have "\<dots> \<longleftrightarrow> \<not> (1 \<le> n \<and> n \<le> int (length A))"
  proof -
    have "n \<in> int ` {1..<Suc (length A)} \<longleftrightarrow> 1 \<le> n \<and> n \<le> int (length A)"
    proof
      assume "n \<in> int ` {1..<Suc (length A)}"
      then show "1 \<le> n \<and> n \<le> int (length A)" by auto
    next
      assume r: "1 \<le> n \<and> n \<le> int (length A)"
      then have "nat n \<in> {1..<Suc (length A)}" by auto
      moreover have "n = int (nat n)" using r by simp
      ultimately show "n \<in> int ` {1..<Suc (length A)}" by (rule rev_image_eqI)
    qed
    then show ?thesis by simp
  qed
  finally show ?thesis .
qed

text \<open>
  Claim C1. For every raw status array \<open>A\<close>, parsing \<open>A\<close> gives a state whose entries
  are keyed by the output numbers \<open>1, ..., len(A)\<close>, once each and in this order (no
  gaps, nothing else), \<open>total_outputs\<close> is \<open>len(A)\<close>, and for every \<open>k\<close> from \<open>1\<close> to
  \<open>len(A)\<close> the entry of output \<open>k\<close> has \<open>raw_value = A[k-1]\<close> and an \<open>input_number\<close>
  that is \<open>None\<close> exactly when \<open>A[k-1]\<close> is 65535 and \<open>A[k-1] + 1\<close> otherwise.
\<close>

theorem parse_status_array_entries:
  "map fst (outputs (parse_status_array A now)) = map int [1..<Suc (length A)]
   \<and> total_outputs (parse_status_array A now) = int (length A)
   \<and> (\<forall>n. get_output (parse_status_array A now) n \<noteq> None \<longleftrightarrow> 1 \<le> n \<and> n \<le> int (length A))
   \<and> (\<forall>k. 1 \<le> k \<and> k \<le> length A \<longrightarrow>
          get_output (parse_status_array A now) (int k) =
            Some \<lparr>output_number = int k,
                  input_number = (if A ! (k - 1) = 65535 then None else Some (A ! (k - 1) + 1)),
                  raw_value = A ! (k - 1)\<rparr>
          \<and> (input_number (the (get_output (parse_status_array A now) (int k))) = None
                \<longleftrightarrow> A ! (k - 1) = 65535))"
proof (intro conjI allI impI)
  show "map fst (outputs (parse_status_array A now)) = map int [1..<Suc (length A)]"
    by (rule parse_status_array_keys)
  show "total_outputs (parse_status_array A now) = int (length A)"
    by (simp add: total_outputs_def parse_status_array_outputs)
  show "get_output (parse_status_array A now) n \<noteq> None \<longleftrightarrow> 1 \<le> n \<and> n \<le> int (length A)" for n
    by (simp add: parse_status_array_absent)
next
  fix k
  assume k: "1 \<le> k \<and> k \<le> length A"
  then have look: "get_output (parse_status_array A now) (int k) = Some (entry_of (int k) (A ! (k - 1)))"
    by (simp add: parse_status_array_lookup)
  show "get_output (parse_status_array A now) (int k) =
            Some \<lparr>output_number = int k,
                  input_number = (if A ! (k - 1) = 65535 then None else Some (A ! (k - 1) + 1)),
                  raw_value = A ! (k - 1)\<rparr>"
    unfolding look by (simp add: entry_of_def)
  show "input_number (the (get_output (parse_status_array A now) (int k))) = None
                \<longleftrightarrow> A ! (k - 1) = 65535"
    unfolding look by (simp add: entry_of_def)
qed

text \<open>The scenario of the specification: the status array \<open>[0, 65535, 2]\<close>.\<close>

theorem parse_status_array_entries_witness:
  "total_outputs (parse_status_array [0, 65535, 2] (PyFloat 0 0)) = 3
   \<and> map fst (outputs (parse_status_array [0, 65535, 2] (PyFloat 0 0))) = [1, 2, 3]
   \<and> get_output (parse_status_array [0, 65535, 2] (PyFloat 0 0)) 1
        = Some \<lparr>output_number = 1, input_number = Some 1, raw_value = 0\<rparr>
   \<and> get_output (parse_status_array [0, 65535, 2] (PyFloat 0 0)) 2
        = Some \<lparr>output_number = 2, input_number = None, raw_value = 65535\<rparr>
   \<and> get_output (parse_status_array [0, 65535, 2] (PyFloat 0 0)) 3
        = Some \<lparr>output_number = 3, input_number = Some 3, raw_value = 2\<rparr>"
proof -
  note t = parse_status_array_entries [of "[0, 65535, 2]" "PyFloat 0 0"]
  have keys: "map fst (outputs (parse_status_array [0, 65535, 2] (PyFloat 0 0))) = [1, 2, 3]"
    using t by (simp add: upt_rec)
  have tot: "total_outputs (parse_status_array [0, 65535, 2] (PyFloat 0 0)) = 3"
    using t by simp
  have each: "\<And>k. 1 \<le> k \<and> k \<le> 3 \<Longrightarrow>
      get_output (parse_status_array [0, 65535, 2] (PyFloat 0 0)) (int k) =
        Some \<lparr>output_number = int k,
              input_number = (if [0, 65535, 2] ! (k - 1) = (65535::int) then None
                              else Some ([0, 65535, 2] ! (k - 1) + 1)),
              raw_value = [0, 65535, 2] ! (k - 1)\<rparr>"
    using t by simp
  show ?thesis
    using keys tot each [of 1] each [of 2] each [of 3] by simp
qed

section \<open>Properties of the transport and of the single-request operations\<close>

lemma calls_append: "calls (a @ b) = calls a @ calls b"
  by (induction a rule: calls.induct) simp_all

lemma calls_map_Call: "calls (map Call h) = h"
  by (induction h) simp_all

lemma calls_notify_change: "calls (notify_change c tr) = calls tr"
  by (simp add: notify_change_def calls_append split: option.splits)

lemma execute_request_trace:
  "snd (execute_request c dev endpoint prms tr) = tr @ [Call (request_call c endpoint prms)]"
  by (simp add: execute_request_def session_get_def request_call_def Let_def
           split: reply.splits sum.splits body_text.splits)

lemma str_int_2: "str_int 2 = ''2''"
  by code_simp

lemma str_int_4: "str_int 4 = ''4''"
  by code_simp

lemma set_route_trace:
  "calls (snd (set_route c dev inp outp tr)) =
     calls tr @ [request_call c COMMAND
                   (Some [(''cmd'', ''o2ox''), (''prm'', str_int (inp - 1) @ '','' @ str_int (outp - 1))])]"
proof -
  let ?prms = "Some [(''cmd'', OUTPUT_TO_OUTPUT), (''prm'', str_int (inp - 1) @ '','' @ str_int (outp - 1))]"
  obtain r tr' where ex: "execute_request c dev COMMAND ?prms tr = (r, tr')"
    by (cases "execute_request c dev COMMAND ?prms tr")
  then have tr': "tr' = tr @ [Call (request_call c COMMAND ?prms)]"
    using execute_request_trace [of c dev COMMAND ?prms tr] by simp
  have "calls (snd (set_route c dev inp outp tr)) = calls tr'"
    using ex by (simp add: set_route_def Let_def calls_notify_change split: sum.splits error.splits)
  then show ?thesis
    by (simp add: tr' calls_append OUTPUT_TO_OUTPUT_def)
qed

text \<open>
  Claim C8. For every pair of ports, \<open>set_route\<close> makes exactly one call on the session:
  the command endpoint with \<open>cmd = "o2ox"\<close> and \<open>prm\<close> the two ports, each lowered by
  one, joined by a comma. For the ports 3 and 5 the parameter is \<open>"2,4"\<close>.
\<close>

theorem set_route_sends_zero_indexed:
  "calls (snd (set_route c dev inp outp tr)) =
     calls tr @ [\<lparr>url = base_url c @ ''get_json_cmd.php'',
                  params = Some [(''cmd'', ''o2ox''),
                                 (''prm'', str_int (inp - 1) @ '','' @ str_int (outp - 1))],
                  headers = [(''Content-Type'', ''application/json'')],
                  timeout = Some (timeout_total c)\<rparr>]
   \<and> calls (snd (set_route c dev 3 5 tr)) =
     calls tr @ [\<lparr>url = base_url c @ ''get_json_cmd.php'',
                  params = Some [(''cmd'', ''o2ox''), (''prm'', ''2,4'')],
                  headers = [(''Content-Type'', ''application/json'')],
                  timeout = Some (timeout_total c)\<rparr>]"
  by (simp add: set_route_trace request_call_def build_headers_def str_int_2 str_int_4)

lemma execute_request_not_json_200:
  "execute_request c (\<lambda>h r. Response 200 (Text body) (Inl json_error)) endpoint prms tr =
     (Inr \<lparr>status_code = 200, data = JStr body, success = False,
           error_message = Some (''JSON parse error: '' @ json_error)\<rparr>,
      tr @ [Call (request_call c endpoint prms)])"
  by (simp add: execute_request_def session_get_def request_call_def Let_def)

text \<open>
  Claim C5 (the code departs from it). A response with status 200 whose body is not
  JSON: \<open>_execute_request\<close> marks it \<open>success = False\<close>, but raises only from status
  400 on, so it returns the response, with the body text as \<open>data\<close>, and no
  \<open>InvalidResponseError\<close>. This holds for every client, endpoint, parameters and body
  text.
\<close>

theorem execute_request_unparseable_200:
  "execute_request c (\<lambda>h r. Response 200 (Text text) (Inl json_error)) endpoint prms tr =
     (Inr \<lparr>status_code = 200, data = JStr text, success = False,
           error_message = Some (''JSON parse error: '' @ json_error)\<rparr>,
      tr @ [Call \<lparr>url = base_url c @ endpoint_value endpoint, params = prms,
                  headers = build_headers, timeout = Some (timeout_total c)\<rparr>])"
  by (simp add: execute_request_def session_get_def Let_def)

text \<open>What the callers make of it: \<open>get_status\<close> returns the text, \<open>set_route\<close> succeeds.\<close>

lemma get_status_unparseable_200:
  "fst (get_status c (\<lambda>h r. Response 200 (Text body) (Inl json_error)) fi now tr) = Inr (JStr body)"
  by (simp add: get_status_def execute_request_not_json_200)

lemma set_route_unparseable_200:
  "fst (set_route c (\<lambda>h r. Response 200 (Text body) (Inl json_error)) inp outp tr)
     = Inr (JStr body)"
  by (simp add: set_route_def Let_def execute_request_not_json_200)

text \<open>From status 400 on, an unparseable body does raise.\<close>

lemma execute_request_unparseable_error_status:
  "400 \<le> status \<Longrightarrow>
   fst (execute_request c (\<lambda>h r. Response status (Text text) (Inl json_error)) endpoint prms tr) =
     Inl (if 500 \<le> status
          then ConnectionError (''Server error: JSON parse error: '' @ json_error)
          else InvalidResponseError (''Client error: JSON parse error: '' @ json_error))"
  by (simp add: execute_request_def session_get_def Let_def fmt_opt_def)

text \<open>
  A body that is neither JSON nor text: the \<open>UnicodeDecodeError\<close> of \<open>resp.text()\<close>
  leaves \<open>_execute_request\<close> as it is, whatever the status.
\<close>

lemma execute_request_undecodable:
  "fst (execute_request c (\<lambda>h r. Response status (Undecodable m) (Inl json_error)) endpoint prms tr)
     = Inl (UnicodeDecodeError m)"
  by (simp add: execute_request_def session_get_def Let_def)

lemma status_ints_numbers: "status_ints xs = Some ns \<Longrightarrow> list_all is_number xs"
proof (induction xs arbitrary: ns)
  case Nil
  then show ?case by simp
next
  case (Cons x xs)
  then show ?case
    by (cases x) (auto split: option.splits)
qed

lemma first_non_number_None_iff: "first_non_number xs = None \<longleftrightarrow> list_all is_number xs"
  by (induction xs) simp_all

lemma get_status_list:
  "(\<exists>d. fst (case status_ints xs of
               Some status_array \<Rightarrow> (Inr (to_dict (parse_status_array status_array now)), tr')
             | None \<Rightarrow>
                 (case first_non_number xs of
                    None \<Rightarrow> (Inr (to_dict_numbers fi xs now), tr')
                  | Some x \<Rightarrow> (Inl (plus_one_error x), tr'))) = Inr d)
     \<longleftrightarrow> list_all is_number xs"
proof (cases "status_ints xs")
  case None
  then show ?thesis
    using first_non_number_None_iff [of xs] by (cases "first_non_number xs") simp_all
next
  case (Some ns)
  then show ?thesis
    using status_ints_numbers [of xs ns] by simp
qed

lemma get_status_ok_iff:
  "(\<exists>d. fst (get_status c dev fi now tr) = Inr d)
     \<longleftrightarrow> status_reply_ok (dev (calls tr) (request_call c STATUS (Some [(''id'', ''0'')])))"
proof (cases "dev (calls tr) (request_call c STATUS (Some [(''id'', ''0'')]))")
  case (TimeoutError m)
  then show ?thesis
    by (simp add: get_status_def execute_request_def session_get_def request_call_def Let_def)
next
  case (ClientError m)
  then show ?thesis
    by (simp add: get_status_def execute_request_def session_get_def request_call_def Let_def)
next
  case (Response status body parsed)
  show ?thesis
  proof (cases parsed)
    case (Inl json_error)
    with Response show ?thesis
      by (cases body)
         (simp_all add: get_status_def execute_request_def session_get_def request_call_def Let_def)
  next
    case (Inr d)
    show ?thesis
    proof (cases d)
      case (JArr xs)
      with Response Inr show ?thesis
        by (simp add: get_status_def execute_request_def session_get_def request_call_def Let_def
                      get_status_list)
    qed (use Response Inr in
          \<open>simp_all add: get_status_def execute_request_def session_get_def request_call_def Let_def\<close>)
  qed
qed

text \<open>
  Claim C9. \<open>test_connection\<close> never raises: for every client, device and history it
  returns a bool, which is true exactly when \<open>get_status\<close> returns and false when
  \<open>get_status\<close> raises, whatever the exception. Which replies make \<open>get_status\<close>
  return is spelled out by \<open>status_reply_ok\<close>; a list of floats is among them: on the
  body \<open>[1.5]\<close> with status 200 the result is \<open>True\<close>.
\<close>

theorem test_connection_never_raises:
  "fst (test_connection c dev fi now tr)
     = Inr (case fst (get_status c dev fi now tr) of Inr d \<Rightarrow> True | Inl e \<Rightarrow> False)
   \<and> fst (test_connection c dev fi now tr)
     = Inr (status_reply_ok (dev (calls tr) (request_call c STATUS (Some [(''id'', ''0'')]))))
   \<and> snd (test_connection c dev fi now tr) = snd (get_status c dev fi now tr)
   \<and> fst (test_connection c float_device fi now tr) = Inr True"
proof -
  have a: "fst (test_connection c dev fi now tr)
     = Inr (case fst (get_status c dev fi now tr) of Inr d \<Rightarrow> True | Inl e \<Rightarrow> False)"
    for dev
    by (simp add: test_connection_def split: prod.splits sum.splits)
  have b: "(case fst (get_status c dev fi now tr) of Inr d \<Rightarrow> True | Inl e \<Rightarrow> False)
     = status_reply_ok (dev (calls tr) (request_call c STATUS (Some [(''id'', ''0'')])))"
    for dev
    using get_status_ok_iff [of c dev fi now tr]
    by (cases "fst (get_status c dev fi now tr)") auto
  have d: "snd (test_connection c dev fi now tr) = snd (get_status c dev fi now tr)"
    by (simp add: test_connection_def split: prod.splits sum.splits)
  have e: "fst (test_connection c float_device fi now tr) = Inr True"
    unfolding a b by (simp add: float_device_def)
  show ?thesis
    using a [of dev] b [of dev] d e by simp
qed

section \<open>Properties of \<open>set_all_to_input\<close>\<close>


lemma set_route_result_calls:
  "calls tr = calls tr2 \<Longrightarrow> fst (set_route c dev inp k tr) = fst (set_route c dev inp k tr2)"
  by (simp add: set_route_def execute_request_def session_get_def Let_def
           split: reply.splits sum.splits error.splits body_text.splits)

lemma set_route_calls:
  "calls (snd (set_route c dev inp k tr)) = calls tr @ [route_call c inp k]"
  by (simp add: set_route_trace route_call_def)

lemma set_all_loop_spec:
  "fst (set_all_loop c dev inp ks errs tr)
      = errs @ map fmt_failure (route_failures c dev inp (calls tr) ks)
   \<and> calls (snd (set_all_loop c dev inp ks errs tr)) = calls tr @ map (route_call c inp) ks"
proof (induction ks arbitrary: errs tr)
  case Nil
  show ?case by simp
next
  case (Cons k ks)
  obtain r tr1 where sr: "set_route c dev inp k tr = (r, tr1)"
    by (cases "set_route c dev inp k tr")
  have c1: "calls tr1 = calls tr @ [route_call c inp k]"
    using set_route_calls [of c dev inp k tr] sr by simp
  have r1: "fst (set_route c dev inp k (map Call (calls tr))) = r"
    using set_route_result_calls [of "map Call (calls tr)" tr c dev inp k] sr
    by (simp add: calls_map_Call)
  show ?case
  proof (cases r)
    case (Inl e)
    then show ?thesis
      using sr c1 r1 Cons.IH [of "errs @ [''num_outputs '' @ str_int k @ '': '' @ str_error e]" tr1]
      by (simp add: fmt_failure_def)
  next
    case (Inr v)
    then show ?thesis
      using sr c1 r1 Cons.IH [of errs tr1] by simp
  qed
qed

text \<open>
  Claim C6. \<open>set_all_to_input\<close> calls \<open>set_route\<close> once for every output from 1 to
  \<open>num_outputs\<close>, in order, whatever the earlier calls gave; it returns normally when
  no \<open>set_route\<close> raised, and otherwise raises a \<open>CommandError\<close> whose message lists
  every output whose \<open>set_route\<close> raised, with the exception's text.
\<close>

theorem set_all_to_input_attempts_all:
  "calls (snd (set_all_to_input c dev inp n tr)) =
      calls tr @ map (\<lambda>k. \<lparr>url = base_url c @ ''get_json_cmd.php'',
                             params = Some [(''cmd'', ''o2ox''),
                                            (''prm'', str_int (inp - 1) @ '','' @ str_int (k - 1))],
                             headers = [(''Content-Type'', ''application/json'')],
                             timeout = Some (timeout_total c)\<rparr>) [1..n]
   \<and> fst (set_all_to_input c dev inp n tr) =
      (if route_failures c dev inp (calls tr) [1..n] = [] then Inr ()
       else Inl (CommandError
                   (''Failed to set all num_outputs: ''
                    @ join ''; ''
                        (map (\<lambda>f. ''num_outputs '' @ str_int (fst f) @ '': '' @ str_error (snd f))
                             (route_failures c dev inp (calls tr) [1..n])))))"
proof -
  obtain errs tr' where l: "set_all_loop c dev inp [1..n] [] tr = (errs, tr')"
    by (cases "set_all_loop c dev inp [1..n] [] tr")
  have e: "errs = map fmt_failure (route_failures c dev inp (calls tr) [1..n])"
    and t: "calls tr' = calls tr @ map (route_call c inp) [1..n]"
    using set_all_loop_spec [of c dev inp "[1..n]" "[]" tr] l by simp_all
  have rc: "route_call c inp = (\<lambda>k. \<lparr>url = base_url c @ ''get_json_cmd.php'',
                             params = Some [(''cmd'', ''o2ox''),
                                            (''prm'', str_int (inp - 1) @ '','' @ str_int (k - 1))],
                             headers = [(''Content-Type'', ''application/json'')],
                             timeout = Some (timeout_total c)\<rparr>)"
    by (rule ext) (simp add: route_call_def request_call_def build_headers_def)
  have fm: "fmt_failure = (\<lambda>f. ''num_outputs '' @ str_int (fst f) @ '': '' @ str_error (snd f))"
    by (rule ext) (simp add: fmt_failure_def)
  show ?thesis
    using l e t unfolding rc fm by (simp add: set_all_to_input_def)
qed

lemma str_int_500: "str_int 500 = ''500''" by code_simp
lemma str_int_1: "str_int 1 = ''1''" by code_simp
lemma str_int_3: "str_int 3 = ''3''" by code_simp

lemma upto_1_3: "[1..3::int] = [1, 2, 3]" by code_simp

lemma flaky_device_failures:
 "route_failures (HDTVMatrixApi_init ''http://matrix.local'' 10) flaky_device 1 [] [1, 2, 3]
   = [(1, CommandError ''Failed to set route: Server error: HTTP 500''),
      (3, CommandError ''Failed to set route: Server error: HTTP 500'')]"
  by (simp add: set_route_def execute_request_def session_get_def Let_def flaky_device_def
        str_int_500 fmt_opt_def calls_map_Call route_call_def request_call_def)

text \<open>An example: of three outputs, the first and the third fail.\<close>

theorem set_all_to_input_attempts_all_witness:
  "fst (set_all_to_input (HDTVMatrixApi_init ''http://matrix.local'' 10) flaky_device 1 3 []) =
     Inl (CommandError
       (''Failed to set all num_outputs: ''
        @ ''num_outputs 1: Failed to set route: Server error: HTTP 500; ''
        @ ''num_outputs 3: Failed to set route: Server error: HTTP 500''))
   \<and> length (calls (snd (set_all_to_input (HDTVMatrixApi_init ''http://matrix.local'' 10) flaky_device 1 3 []))) = 3"
proof -
  let ?c = "HDTVMatrixApi_init ''http://matrix.local'' 10"
  note t = set_all_to_input_attempts_all [of ?c flaky_device 1 3 "[]"]
  have f: "route_failures ?c flaky_device 1 (calls []) [1..3]
             = [(1, CommandError ''Failed to set route: Server error: HTTP 500''),
                (3, CommandError ''Failed to set route: Server error: HTTP 500'')]"
    by (simp only: calls.simps upto_1_3 flaky_device_failures)
  have "fst (set_all_to_input ?c flaky_device 1 3 []) =
     Inl (CommandError
       (''Failed to set all num_outputs: ''
        @ ''num_outputs 1: Failed to set route: Server error: HTTP 500; ''
        @ ''num_outputs 3: Failed to set route: Server error: HTTP 500''))"
    using t unfolding f by (simp add: str_int_1 str_int_3)
  moreover have "length (calls (snd (set_all_to_input ?c flaky_device 1 3 []))) = 3"
    using t unfolding upto_1_3 by simp
  ultimately show ?thesis by simp
qed

section \<open>Properties of the videowall preset\<close>

lemma splice_cmd_step_ok:
  "cmd_reply_ok (dev (calls tr) (splice_cmd_call c cs)) \<Longrightarrow>
   splice_cmd_step c dev idx cs tr = (Inr (), tr @ [Call (splice_cmd_call c cs)])"
  by (cases "dev (calls tr) (splice_cmd_call c cs)" rule: cmd_reply_ok.cases)
     (simp_all add: splice_cmd_step_def session_get_def Let_def)

lemma splice_cmd_step_bad:
  "\<not> cmd_reply_ok (dev (calls tr) (splice_cmd_call c cs)) \<Longrightarrow>
   \<exists>e. splice_cmd_step c dev idx cs tr = (Inl e, tr @ [Call (splice_cmd_call c cs)])"
  by (cases "dev (calls tr) (splice_cmd_call c cs)" rule: cmd_reply_ok.cases)
     (simp_all add: splice_cmd_step_def session_get_def Let_def)


text \<open>
  A command call answered with a body that cannot be decoded: the \<open>UnicodeDecodeError\<close>
  of \<open>resp.text()\<close> leaves the preset as it is, whatever the status.
\<close>

lemma splice_cmd_step_undecodable:
  "dev (calls tr) (splice_cmd_call c cs) = Response s (Undecodable m) parsed \<Longrightarrow>
   splice_cmd_step c dev idx cs tr = (Inl (UnicodeDecodeError m), tr @ [Call (splice_cmd_call c cs)])"
  by (simp add: splice_cmd_step_def session_get_def Let_def)

lemma splice_data_step_ok:
  "data_reply_ok (dev (calls tr) (splice_data_call c cs)) \<Longrightarrow>
   splice_data_step c dev idx cs tr = (Inr (), tr @ [Call (splice_data_call c cs)])"
  by (cases "dev (calls tr) (splice_data_call c cs)")
     (simp_all add: splice_data_step_def session_get_def Let_def)

lemma splice_data_step_bad:
  "\<not> data_reply_ok (dev (calls tr) (splice_data_call c cs)) \<Longrightarrow>
   \<exists>m. splice_data_step c dev idx cs tr =
         (Inl (CommandError (''Error configurando videowall DATA (case '' @ str_int idx @ ''): '' @ m)),
          tr @ [Call (splice_data_call c cs)])"
proof (cases "dev (calls tr) (splice_data_call c cs)")
  case (Response status body parsed)
  assume "\<not> data_reply_ok (dev (calls tr) (splice_data_call c cs))"
  with Response show ?thesis
    by (cases body) (simp_all add: splice_data_step_def session_get_def Let_def)
qed (simp_all add: splice_data_step_def session_get_def Let_def)

lemma splice_data_step_fail:
  "dev (calls tr) (splice_data_call c cs) = Response s (Text body) parsed \<Longrightarrow> s \<noteq> 200 \<Longrightarrow>
   splice_data_step c dev idx cs tr =
     (Inl (CommandError (''Error configurando videowall DATA (case '' @ str_int idx @ ''): ''
                         @ ''Videowall splice DATA failed (case '' @ str_int idx @ ''): HTTP ''
                         @ str_int s @ '' - '' @ body)),
      tr @ [Call (splice_data_call c cs)])"
  by (simp add: splice_data_step_def session_get_def Let_def)

lemma splice_cmd_step_trace:
  "snd (splice_cmd_step c dev idx cs tr) = tr @ [Call (splice_cmd_call c cs)]"
  by (simp add: splice_cmd_step_def session_get_def Let_def split: reply.splits body_text.splits)

lemma splice_data_step_trace:
  "snd (splice_data_step c dev idx cs tr) = tr @ [Call (splice_data_call c cs)]"
  by (simp add: splice_data_step_def session_get_def Let_def split: reply.splits body_text.splits)

lemma pair_calls_Cons:
  "pair_calls c (p # ics) = splice_cmd_call c (snd p) # splice_data_call c (snd p) # pair_calls c ics"
  by (simp add: pair_calls_def)

lemma pair_calls_Nil: "pair_calls c [] = []"
  by (simp add: pair_calls_def)

lemma length_pair_calls: "length (pair_calls c ics) = 2 * length ics"
  by (induction ics) (simp_all add: pair_calls_Cons pair_calls_Nil)

text \<open>When every call gets a good answer the loop runs through all the cases.\<close>

lemma splice_loop_all_ok:
  "first_bad c dev (calls tr) ics = None \<Longrightarrow>
   splice_loop c dev ics tr = (Inr (), tr @ map Call (pair_calls c ics))"
proof (induction ics arbitrary: tr)
  case Nil
  show ?case by (simp add: pair_calls_Nil)
next
  case (Cons p ics)
  obtain idx cs where p: "p = (idx, cs)" by (cases p)
  let ?tr1 = "tr @ [Call (splice_cmd_call c cs)]"
  let ?tr2 = "?tr1 @ [Call (splice_data_call c cs)]"
  from Cons.prems have a1: "cmd_reply_ok (dev (calls tr) (splice_cmd_call c cs))"
    and a2: "data_reply_ok (dev (calls tr @ [splice_cmd_call c cs]) (splice_data_call c cs))"
    and a3: "first_bad c dev (calls tr @ [splice_cmd_call c cs, splice_data_call c cs]) ics = None"
    unfolding p by (simp_all split: if_splits)
  have s1: "splice_cmd_step c dev idx cs tr = (Inr (), ?tr1)"
    using a1 by (rule splice_cmd_step_ok)
  have s2: "splice_data_step c dev idx cs ?tr1 = (Inr (), ?tr2)"
    using a2 by (intro splice_data_step_ok) (simp add: calls_append)
  have "first_bad c dev (calls ?tr2) ics = None"
    using a3 by (simp add: calls_append)
  then have "splice_loop c dev ics ?tr2 = (Inr (), ?tr2 @ map Call (pair_calls c ics))"
    by (rule Cons.IH)
  then show ?case
    by (simp add: p s1 s2 pair_calls_Cons)
qed

text \<open>
  Otherwise the loop stops at the first call that does not get a good answer: that call
  is the last one made, and the result is that of the failing step.
\<close>

lemma splice_loop_stops:
  "first_bad c dev (calls tr) ics = Some j \<Longrightarrow>
   j < length (pair_calls c ics)
   \<and> snd (splice_loop c dev ics tr) = tr @ map Call (take (Suc j) (pair_calls c ics))
   \<and> (if even j
      then \<not> cmd_reply_ok (dev (calls tr @ take j (pair_calls c ics))
                               (splice_cmd_call c (snd (ics ! (j div 2)))))
           \<and> fst (splice_loop c dev ics tr) =
               fst (splice_cmd_step c dev (fst (ics ! (j div 2))) (snd (ics ! (j div 2)))
                      (tr @ map Call (take j (pair_calls c ics))))
      else \<not> data_reply_ok (dev (calls tr @ take j (pair_calls c ics))
                                (splice_data_call c (snd (ics ! (j div 2)))))
           \<and> fst (splice_loop c dev ics tr) =
               fst (splice_data_step c dev (fst (ics ! (j div 2))) (snd (ics ! (j div 2)))
                      (tr @ map Call (take j (pair_calls c ics)))))"
proof (induction ics arbitrary: tr j)
  case Nil
  then show ?case by simp
next
  case (Cons p ics)
  obtain idx cs where p: "p = (idx, cs)" by (cases p)
  let ?cmd = "splice_cmd_call c cs"
  let ?dat = "splice_data_call c cs"
  let ?P = "pair_calls c ics"
  let ?tr1 = "tr @ [Call ?cmd]"
  let ?tr2 = "?tr1 @ [Call ?dat]"
  have pc: "pair_calls c ((idx, cs) # ics) = ?cmd # ?dat # ?P"
    by (simp add: pair_calls_Cons)
  have fb: "first_bad c dev (calls tr) ((idx, cs) # ics) = Some j"
    using Cons.prems unfolding p .
  have main: "j < length (pair_calls c ((idx, cs) # ics))
   \<and> snd (splice_loop c dev ((idx, cs) # ics) tr)
       = tr @ map Call (take (Suc j) (pair_calls c ((idx, cs) # ics)))
   \<and> (if even j
      then \<not> cmd_reply_ok (dev (calls tr @ take j (pair_calls c ((idx, cs) # ics)))
                               (splice_cmd_call c (snd (((idx, cs) # ics) ! (j div 2)))))
           \<and> fst (splice_loop c dev ((idx, cs) # ics) tr) =
               fst (splice_cmd_step c dev (fst (((idx, cs) # ics) ! (j div 2)))
                      (snd (((idx, cs) # ics) ! (j div 2)))
                      (tr @ map Call (take j (pair_calls c ((idx, cs) # ics)))))
      else \<not> data_reply_ok (dev (calls tr @ take j (pair_calls c ((idx, cs) # ics)))
                                (splice_data_call c (snd (((idx, cs) # ics) ! (j div 2)))))
           \<and> fst (splice_loop c dev ((idx, cs) # ics) tr) =
               fst (splice_data_step c dev (fst (((idx, cs) # ics) ! (j div 2)))
                      (snd (((idx, cs) # ics) ! (j div 2)))
                      (tr @ map Call (take j (pair_calls c ((idx, cs) # ics))))))"
  proof (cases "cmd_reply_ok (dev (calls tr) ?cmd)")
    case False
    then have j: "j = 0"
      using fb by simp
    obtain e where s1: "splice_cmd_step c dev idx cs tr = (Inl e, ?tr1)"
      using False splice_cmd_step_bad [where dev = dev and tr = tr and c = c and cs = cs and idx = idx]
      by blast
    show ?thesis
      unfolding j pc using False s1 by simp
  next
    case c_ok: True
    have s1: "splice_cmd_step c dev idx cs tr = (Inr (), ?tr1)"
      using c_ok by (rule splice_cmd_step_ok)
    show ?thesis
    proof (cases "data_reply_ok (dev (calls tr @ [?cmd]) ?dat)")
      case False
      then have j: "j = 1"
        using fb c_ok by simp
      have bad: "\<not> data_reply_ok (dev (calls ?tr1) ?dat)"
        using False by (simp add: calls_append)
      obtain m where s2: "splice_data_step c dev idx cs ?tr1 =
         (Inl (CommandError (''Error configurando videowall DATA (case '' @ str_int idx @ ''): '' @ m)),
          ?tr2)"
        using bad splice_data_step_bad [where dev = dev and tr = ?tr1 and c = c and cs = cs and idx = idx]
        by blast
      show ?thesis
        unfolding j pc using False s1 s2 by simp
    next
      case d_ok: True
      have s2: "splice_data_step c dev idx cs ?tr1 = (Inr (), ?tr2)"
        using d_ok by (intro splice_data_step_ok) (simp add: calls_append)
      obtain j' where j': "first_bad c dev (calls ?tr2) ics = Some j'" and j: "j = j' + 2"
        using fb c_ok d_ok by (auto simp add: calls_append)
      note ih = Cons.IH [OF j']
      have ih1: "j' < length ?P"
        using ih by (rule conjunct1)
      have ih2: "snd (splice_loop c dev ics ?tr2) = ?tr2 @ map Call (take (Suc j') ?P)"
        by (rule conjunct1 [OF conjunct2 [OF ih]])
      note ih3 = conjunct2 [OF conjunct2 [OF ih]]
      have eq: "splice_loop c dev ((idx, cs) # ics) tr = splice_loop c dev ics ?tr2"
        using s1 s2 by simp
      have e1: "tr @ map Call (take j (?cmd # ?dat # ?P)) = ?tr2 @ map Call (take j' ?P)"
        by (simp add: j)
      have e2: "calls tr @ take j (?cmd # ?dat # ?P) = calls ?tr2 @ take j' ?P"
        by (simp add: j calls_append)
      have nth: "((idx, cs) # ics) ! (j div 2) = ics ! (j' div 2)"
        by (simp add: j)
      have ev: "even j = even j'"
        by (simp add: j)
      have g1: "j < length (?cmd # ?dat # ?P)"
        using ih1 by (simp add: j)
      have g2: "snd (splice_loop c dev ics ?tr2) = tr @ map Call (take (Suc j) (?cmd # ?dat # ?P))"
        using ih2 by (simp add: j)
      show ?thesis
        unfolding pc eq nth ev e1 e2 by (intro conjI g1 g2 ih3)
    qed
  qed
  show ?case
    unfolding p by (rule main)
qed
lemma preset_calls_cases:
  "preset_calls c =
     [splice_cmd_call c (splice_cases ! 0), splice_data_call c (splice_cases ! 0),
      splice_cmd_call c (splice_cases ! 1), splice_data_call c (splice_cases ! 1),
      splice_cmd_call c (splice_cases ! 2), splice_data_call c (splice_cases ! 2),
      splice_cmd_call c (splice_cases ! 3), splice_data_call c (splice_cases ! 3)]"
  by (simp add: preset_calls_def pair_calls_def splice_cases_def)

lemma dumps_str_1: \<open>dumps_str ''1'' = ''"1"''\<close> by (simp add: dumps_str_def escape_char_def)
lemma dumps_str_2: \<open>dumps_str ''2'' = ''"2"''\<close> by (simp add: dumps_str_def escape_char_def)
lemma dumps_str_3: \<open>dumps_str ''3'' = ''"3"''\<close> by (simp add: dumps_str_def escape_char_def)
lemma dumps_str_4: \<open>dumps_str ''4'' = ''"4"''\<close> by (simp add: dumps_str_def escape_char_def)
lemma dumps_str_m1: \<open>dumps_str ''-1'' = ''"-1"''\<close> by (simp add: dumps_str_def escape_char_def)
lemma dumps_str_x: \<open>dumps_str ''x'' = ''"x"''\<close> by (simp add: dumps_str_def escape_char_def)
lemma dumps_str_y: \<open>dumps_str ''y'' = ''"y"''\<close> by (simp add: dumps_str_def escape_char_def)
lemma dumps_str_data: \<open>dumps_str ''data'' = ''"data"''\<close> by (simp add: dumps_str_def escape_char_def)

lemmas dumps_str_literals =
  dumps_str_1 dumps_str_2 dumps_str_3 dumps_str_4 dumps_str_m1 dumps_str_x dumps_str_y dumps_str_data

lemma splice_data_call_literals:
  \<open>splice_data_call c (splice_cases ! 0) =
     \<lparr>url = base_url c @ ''get_json_splice.php'',
      params = Some [(''splice'', ''[{"x": "2", "y": "2", "data": ["1", "-1", "-1", "-1"]}]'')],
      headers = [(''Content-Type'', ''application/json'')], timeout = Some (timeout_total c)\<rparr>\<close>
  \<open>splice_data_call c (splice_cases ! 1) =
     \<lparr>url = base_url c @ ''get_json_splice.php'',
      params = Some [(''splice'', ''[{"x": "2", "y": "2", "data": ["1", "2", "-1", "-1"]}]'')],
      headers = [(''Content-Type'', ''application/json'')], timeout = Some (timeout_total c)\<rparr>\<close>
  \<open>splice_data_call c (splice_cases ! 2) =
     \<lparr>url = base_url c @ ''get_json_splice.php'',
      params = Some [(''splice'', ''[{"x": "2", "y": "2", "data": ["1", "2", "3", "-1"]}]'')],
      headers = [(''Content-Type'', ''application/json'')], timeout = Some (timeout_total c)\<rparr>\<close>
  \<open>splice_data_call c (splice_cases ! 3) =
     \<lparr>url = base_url c @ ''get_json_splice.php'',
      params = Some [(''splice'', ''[{"x": "2", "y": "2", "data": ["1", "2", "3", "4"]}]'')],
      headers = [(''Content-Type'', ''application/json'')], timeout = Some (timeout_total c)\<rparr>\<close>
  by (simp_all add: splice_data_call_def splice_cases_def splice_payload_def Let_def
        build_headers_def dumps_str_literals)

lemma splice_cmd_call_literals:
  "splice_cmd_call c (splice_cases ! 0) =
     \<lparr>url = base_url c @ ''/get_json_cmd.php?cmd=splice&prm=1,1,1,2,2,1,'', params = None,
      headers = [(''Content-Type'', ''application/json'')], timeout = Some (timeout_total c)\<rparr>"
  "splice_cmd_call c (splice_cases ! 1) =
     \<lparr>url = base_url c @ ''/get_json_cmd.php?cmd=splice&prm=2,1,2,2,2,1,'', params = None,
      headers = [(''Content-Type'', ''application/json'')], timeout = Some (timeout_total c)\<rparr>"
  "splice_cmd_call c (splice_cases ! 2) =
     \<lparr>url = base_url c @ ''/get_json_cmd.php?cmd=splice&prm=3,1,3,2,2,1,'', params = None,
      headers = [(''Content-Type'', ''application/json'')], timeout = Some (timeout_total c)\<rparr>"
  "splice_cmd_call c (splice_cases ! 3) =
     \<lparr>url = base_url c @ ''/get_json_cmd.php?cmd=splice&prm=4,1,4,2,2,1,'', params = None,
      headers = [(''Content-Type'', ''application/json'')], timeout = Some (timeout_total c)\<rparr>"
  by (simp_all add: splice_cmd_call_def splice_cases_def Let_def build_headers_def)

lemma length_enumerate_from: "length (enumerate_from s xs) = length xs"
  by (induction xs arbitrary: s) simp_all


lemma length_preset_calls: "length (preset_calls c) = 8"
  by (simp add: preset_calls_cases)


lemma set_splice_and_video_all_ok:
  assumes "preset_first_bad c dev (calls tr) = None"
  shows "set_splice_and_video c dev tr = (Inr (), notify_change c (tr @ map Call (preset_calls c)))"
proof -
  have "splice_loop c dev (enumerate_from 1 splice_cases) tr
          = (Inr (), tr @ map Call (pair_calls c (enumerate_from 1 splice_cases)))"
    using assms unfolding preset_first_bad_def by (rule splice_loop_all_ok)
  then show ?thesis
    by (simp add: set_splice_and_video_def preset_calls_def)
qed

lemma set_splice_and_video_stops:
  assumes "preset_first_bad c dev (calls tr) = Some j"
  shows "j < 8 \<and> (\<exists>e. set_splice_and_video c dev tr
                          = (Inl e, tr @ map Call (take (Suc j) (preset_calls c))))"
proof -
  let ?ics = "enumerate_from 1 splice_cases"
  let ?L = "splice_loop c dev ?ics tr"
  have fb: "first_bad c dev (calls tr) ?ics = Some j"
    using assms by (simp add: preset_first_bad_def)
  note st = splice_loop_stops [OF fb]
  have j: "j < 8"
    using st length_preset_calls [of c] by (simp add: preset_calls_def)
  have sn: "snd ?L = tr @ map Call (take (Suc j) (preset_calls c))"
    using st by (simp add: preset_calls_def)
  have "\<exists>e. fst ?L = Inl e"
  proof (cases "even j")
    case True
    then have bad: "\<not> cmd_reply_ok (dev (calls (tr @ map Call (take j (pair_calls c ?ics))))
                                        (splice_cmd_call c (snd (?ics ! (j div 2)))))"
      and f: "fst ?L = fst (splice_cmd_step c dev (fst (?ics ! (j div 2))) (snd (?ics ! (j div 2)))
                              (tr @ map Call (take j (pair_calls c ?ics))))"
      using st by (simp_all add: calls_append calls_map_Call)
    show ?thesis
      using bad splice_cmd_step_bad
              [where dev = dev and c = c and cs = "snd (?ics ! (j div 2))"
                 and idx = "fst (?ics ! (j div 2))"
                 and tr = "tr @ map Call (take j (pair_calls c ?ics))"]
      unfolding f by auto
  next
    case False
    then have bad: "\<not> data_reply_ok (dev (calls (tr @ map Call (take j (pair_calls c ?ics))))
                                         (splice_data_call c (snd (?ics ! (j div 2)))))"
      and f: "fst ?L = fst (splice_data_step c dev (fst (?ics ! (j div 2))) (snd (?ics ! (j div 2)))
                              (tr @ map Call (take j (pair_calls c ?ics))))"
      using st by (simp_all add: calls_append calls_map_Call)
    show ?thesis
      using bad splice_data_step_bad
              [where dev = dev and c = c and cs = "snd (?ics ! (j div 2))"
                 and idx = "fst (?ics ! (j div 2))"
                 and tr = "tr @ map Call (take j (pair_calls c ?ics))"]
      unfolding f by auto
  qed
  then obtain e where e: "fst ?L = Inl e"
    by blast
  have "?L = (Inl e, tr @ map Call (take (Suc j) (preset_calls c)))"
    using e sn by (cases ?L) simp
  then have "set_splice_and_video c dev tr = (Inl e, tr @ map Call (take (Suc j) (preset_calls c)))"
    by (simp add: set_splice_and_video_def)
  then show ?thesis
    using j by blast
qed



lemma first_bad_ok_device: "first_bad c ok_device h ics = None"
  by (induction ics arbitrary: h) (simp_all add: ok_device_def)

lemma preset_first_bad_ok_device: "preset_first_bad c ok_device h = None"
  by (simp add: preset_first_bad_def first_bad_ok_device)

lemma base_url_example_client: "base_url example_client = ''http://matrix.local/''"
  by (simp add: example_client_def HDTVMatrixApi_init_def rstrip_chars_def)




text \<open>
  Claim C2, as the code has it. The preset consists of eight calls in a fixed order, for
  each of the four cases its command call and then its splice-data call. The command call
  carries \<open>cmd=splice\<close> and the literal \<open>prm\<close> of the case in its URL; the splice-data
  call carries as \<open>splice\<close> the JSON text of a list with one object whose \<open>x\<close> and \<open>y\<close>
  are the strings \<open>"2"\<close> (not numbers) and whose \<open>data\<close> is the literal list of the case.
  When the device gives each of them a good answer (status 200, and for a command call a
  body that can be read as text), \<open>set_splice_and_video\<close> returns normally having made
  exactly these eight calls; in every run the calls made are an initial part of this
  sequence.
\<close>

theorem videowall_preset_calls:
  \<open>preset_calls c =
     [\<lparr>url = base_url c @ ''/get_json_cmd.php?cmd=splice&prm=1,1,1,2,2,1,'', params = None,
       headers = [(''Content-Type'', ''application/json'')], timeout = Some (timeout_total c)\<rparr>,
      \<lparr>url = base_url c @ ''get_json_splice.php'',
       params = Some [(''splice'', ''[{"x": "2", "y": "2", "data": ["1", "-1", "-1", "-1"]}]'')],
       headers = [(''Content-Type'', ''application/json'')], timeout = Some (timeout_total c)\<rparr>,
      \<lparr>url = base_url c @ ''/get_json_cmd.php?cmd=splice&prm=2,1,2,2,2,1,'', params = None,
       headers = [(''Content-Type'', ''application/json'')], timeout = Some (timeout_total c)\<rparr>,
      \<lparr>url = base_url c @ ''get_json_splice.php'',
       params = Some [(''splice'', ''[{"x": "2", "y": "2", "data": ["1", "2", "-1", "-1"]}]'')],
       headers = [(''Content-Type'', ''application/json'')], timeout = Some (timeout_total c)\<rparr>,
      \<lparr>url = base_url c @ ''/get_json_cmd.php?cmd=splice&prm=3,1,3,2,2,1,'', params = None,
       headers = [(''Content-Type'', ''application/json'')], timeout = Some (timeout_total c)\<rparr>,
      \<lparr>url = base_url c @ ''get_json_splice.php'',
       params = Some [(''splice'', ''[{"x": "2", "y": "2", "data": ["1", "2", "3", "-1"]}]'')],
       headers = [(''Content-Type'', ''application/json'')], timeout = Some (timeout_total c)\<rparr>,
      \<lparr>url = base_url c @ ''/get_json_cmd.php?cmd=splice&prm=4,1,4,2,2,1,'', params = None,
       headers = [(''Content-Type'', ''application/json'')], timeout = Some (timeout_total c)\<rparr>,
      \<lparr>url = base_url c @ ''get_json_splice.php'',
       params = Some [(''splice'', ''[{"x": "2", "y": "2", "data": ["1", "2", "3", "4"]}]'')],
       headers = [(''Content-Type'', ''application/json'')], timeout = Some (timeout_total c)\<rparr>]
   \<and> (preset_first_bad c dev (calls tr) = None \<longrightarrow>
        fst (set_splice_and_video c dev tr) = Inr ()
        \<and> calls (snd (set_splice_and_video c dev tr)) = calls tr @ preset_calls c)
   \<and> (\<exists>n \<le> 8. calls (snd (set_splice_and_video c dev tr)) = calls tr @ take n (preset_calls c))\<close>
proof (intro conjI impI)
  show \<open>preset_calls c =
     [\<lparr>url = base_url c @ ''/get_json_cmd.php?cmd=splice&prm=1,1,1,2,2,1,'', params = None,
       headers = [(''Content-Type'', ''application/json'')], timeout = Some (timeout_total c)\<rparr>,
      \<lparr>url = base_url c @ ''get_json_splice.php'',
       params = Some [(''splice'', ''[{"x": "2", "y": "2", "data": ["1", "-1", "-1", "-1"]}]'')],
       headers = [(''Content-Type'', ''application/json'')], timeout = Some (timeout_total c)\<rparr>,
      \<lparr>url = base_url c @ ''/get_json_cmd.php?cmd=splice&prm=2,1,2,2,2,1,'', params = None,
       headers = [(''Content-Type'', ''application/json'')], timeout = Some (timeout_total c)\<rparr>,
      \<lparr>url = base_url c @ ''get_json_splice.php'',
       params = Some [(''splice'', ''[{"x": "2", "y": "2", "data": ["1", "2", "-1", "-1"]}]'')],
       headers = [(''Content-Type'', ''application/json'')], timeout = Some (timeout_total c)\<rparr>,
      \<lparr>url = base_url c @ ''/get_json_cmd.php?cmd=splice&prm=3,1,3,2,2,1,'', params = None,
       headers = [(''Content-Type'', ''application/json'')], timeout = Some (timeout_total c)\<rparr>,
      \<lparr>url = base_url c @ ''get_json_splice.php'',
       params = Some [(''splice'', ''[{"x": "2", "y": "2", "data": ["1", "2", "3", "-1"]}]'')],
       headers = [(''Content-Type'', ''application/json'')], timeout = Some (timeout_total c)\<rparr>,
      \<lparr>url = base_url c @ ''/get_json_cmd.php?cmd=splice&prm=4,1,4,2,2,1,'', params = None,
       headers = [(''Content-Type'', ''application/json'')], timeout = Some (timeout_total c)\<rparr>,
      \<lparr>url = base_url c @ ''get_json_splice.php'',
       params = Some [(''splice'', ''[{"x": "2", "y": "2", "data": ["1", "2", "3", "4"]}]'')],
       headers = [(''Content-Type'', ''application/json'')], timeout = Some (timeout_total c)\<rparr>]\<close>
    unfolding preset_calls_cases
    by (simp only: splice_data_call_literals splice_cmd_call_literals)
next
  assume "preset_first_bad c dev (calls tr) = None"
  then have run: "set_splice_and_video c dev tr = (Inr (), notify_change c (tr @ map Call (preset_calls c)))"
    by (rule set_splice_and_video_all_ok)
  show "fst (set_splice_and_video c dev tr) = Inr ()"
    by (simp add: run)
  show "calls (snd (set_splice_and_video c dev tr)) = calls tr @ preset_calls c"
    by (simp add: run calls_notify_change calls_append calls_map_Call)
next
  show "\<exists>n \<le> 8. calls (snd (set_splice_and_video c dev tr)) = calls tr @ take n (preset_calls c)"
  proof (cases "preset_first_bad c dev (calls tr)")
    case None
    then have "set_splice_and_video c dev tr
                 = (Inr (), notify_change c (tr @ map Call (preset_calls c)))"
      by (rule set_splice_and_video_all_ok)
    then have "calls (snd (set_splice_and_video c dev tr)) = calls tr @ take 8 (preset_calls c)"
      by (simp add: calls_notify_change calls_append calls_map_Call length_preset_calls)
    then show ?thesis by blast
  next
    case (Some j)
    then obtain e where "j < 8"
        "set_splice_and_video c dev tr = (Inl e, tr @ map Call (take (Suc j) (preset_calls c)))"
      using set_splice_and_video_stops [of c dev tr j] by blast
    then have "Suc j \<le> 8"
        "calls (snd (set_splice_and_video c dev tr)) = calls tr @ take (Suc j) (preset_calls c)"
      by (simp_all add: calls_append calls_map_Call)
    then show ?thesis by blast
  qed
qed

text \<open>A device that answers every call with status 200: all eight calls are made.\<close>

theorem videowall_preset_calls_witness:
  "preset_first_bad example_client ok_device (calls []) = None
   \<and> fst (set_splice_and_video example_client ok_device []) = Inr ()
   \<and> calls (snd (set_splice_and_video example_client ok_device [])) = preset_calls example_client
   \<and> length (preset_calls example_client) = 8
   \<and> url (preset_calls example_client ! 0)
        = ''http://matrix.local//get_json_cmd.php?cmd=splice&prm=1,1,1,2,2,1,''"
proof -
  note t = videowall_preset_calls [of example_client ok_device "[]"]
  have a: "preset_first_bad example_client ok_device (calls []) = None"
    by (rule preset_first_bad_ok_device)
  from t a have "fst (set_splice_and_video example_client ok_device []) = Inr ()"
    and "calls (snd (set_splice_and_video example_client ok_device [])) = calls [] @ preset_calls example_client"
    by blast+
  moreover from t have "length (preset_calls example_client) = 8"
    and "url (preset_calls example_client ! 0)
        = ''http://matrix.local//get_json_cmd.php?cmd=splice&prm=1,1,1,2,2,1,''"
    by (simp_all add: base_url_example_client)
  ultimately show ?thesis
    using a by simp
qed

text \<open>
  Claim C2 as stated fails: in a run where every call is answered with status 200, the
  payload of the first splice-data call is not the JSON of \<open>[{x: 2, y: 2, data: [...]}]\<close>
  with numbers for \<open>x\<close> and \<open>y\<close>, neither with the default separators nor in the
  compact form.
\<close>

theorem videowall_preset_payload_counterexample:
  \<open>fst (set_splice_and_video example_client ok_device []) = Inr ()
   \<and> params (calls (snd (set_splice_and_video example_client ok_device [])) ! 1)
       = Some [(''splice'', ''[{"x": "2", "y": "2", "data": ["1", "-1", "-1", "-1"]}]'')]
   \<and> params (calls (snd (set_splice_and_video example_client ok_device [])) ! 1)
       \<noteq> Some [(''splice'',
                 json_dumps '', '' '': ''
                   (PList [PDict [(''x'', PInt 2), (''y'', PInt 2),
                                  (''data'', PList [PStr ''1'', PStr ''-1'', PStr ''-1'', PStr ''-1''])]]))]
   \<and> params (calls (snd (set_splice_and_video example_client ok_device [])) ! 1)
       \<noteq> Some [(''splice'',
                 json_dumps '','' '':''
                   (PList [PDict [(''x'', PInt 2), (''y'', PInt 2),
                                  (''data'', PList [PStr ''1'', PStr ''-1'', PStr ''-1'', PStr ''-1''])]]))]\<close>
proof -
  have run: "set_splice_and_video example_client ok_device []
      = (Inr (), notify_change example_client ([] @ map Call (preset_calls example_client)))"
    by (rule set_splice_and_video_all_ok) (rule preset_first_bad_ok_device)
  have c1: "calls (snd (set_splice_and_video example_client ok_device [])) ! 1
      = splice_data_call example_client (splice_cases ! 0)"
    by (simp add: run calls_notify_change calls_map_Call preset_calls_cases)
  show ?thesis
    unfolding c1 by (simp add: run splice_data_call_literals dumps_str_literals str_int_2)
qed





section \<open>Properties of the splice payload builder\<close>

text \<open>
  The length check is as documented; the dimensions written into the payload are not:
  whatever \<open>num_inputs\<close> and \<open>num_outputs\<close> are, the payload says \<open>x = 2, y = 2\<close>.
\<close>

lemma build_payload_ignores_dimensions:
  "int (length d) = num_inputs * num_outputs \<Longrightarrow>
   build_payload num_inputs num_outputs (Some d) = Inr (documented_payload 2 2 d)"
  by (simp add: build_payload_def documented_payload_def Let_def)

lemma build_payload_validates:
  "int (length d) \<noteq> num_inputs * num_outputs \<Longrightarrow>
   build_payload num_inputs num_outputs (Some d) =
     Inl (ValueError (''Data length must be '' @ str_int (num_inputs * num_outputs)
            @ '' (num_inputs * num_outputs), got '' @ str_int (int (length d))))"
  by (simp add: build_payload_def)

text \<open>
  Claim C4 (the code departs from it). For \<open>num_inputs = 3\<close>, \<open>num_outputs = 1\<close> and
  three data strings the length check passes, and \<open>build_payload\<close> returns the encoding
  of \<open>[{"x":2,"y":2,"data":["1","2","3"]}]\<close>, where the documented payload is the encoding
  of \<open>[{"x":3,"y":1,"data":["1","2","3"]}]\<close>.
\<close>

theorem build_payload_hard_codes_2_by_2:
  "build_payload 3 1 (Some [''1'', ''2'', ''3'']) =
     Inr ''%5B%7B%22x%22%3A2%2C%22y%22%3A2%2C%22data%22%3A%5B%221%22%2C%222%22%2C%223%22%5D%7D%5D''
   \<and> documented_payload 3 1 [''1'', ''2'', ''3''] =
     ''%5B%7B%22x%22%3A3%2C%22y%22%3A1%2C%22data%22%3A%5B%221%22%2C%222%22%2C%223%22%5D%7D%5D''"
  by code_simp

section \<open>Properties of the poller\<close>

text \<open>
  What holds: \<open>_async_update_data\<close> never touches the cached snapshot; when
  \<open>get_status\<close> raises, the counter goes up by one; a successful update leaves it at 0.
  With the host's refresh, a failed refresh keeps the snapshot and what
  \<open>get_all_outputs\<close> returns, and \<open>is_connected\<close> is false after it.
\<close>

lemma async_update_data_keeps_cache:
  "coordinator_data (fst (snd (async_update_data c dev fi now coord tr))) = coordinator_data coord
   \<and> last_update_success (fst (snd (async_update_data c dev fi now coord tr))) = last_update_success coord"
  by (simp add: async_update_data_def Let_def split: prod.splits sum.splits error.splits)

lemma async_update_data_raise_increments:
  "fst (get_status c dev fi now tr) = Inl e \<Longrightarrow>
   consecutive_failures (fst (snd (async_update_data c dev fi now coord tr))) = consecutive_failures coord + 1
   \<and> (\<exists>m. fst (async_update_data c dev fi now coord tr) = Inl (UpdateFailed m))"
  by (cases "get_status c dev fi now tr"; cases e)
     (simp_all add: async_update_data_def)

lemma async_update_data_success_resets:
  "fst (async_update_data c dev fi now coord tr) = Inr d \<Longrightarrow> 0 \<le> consecutive_failures coord \<Longrightarrow>
   consecutive_failures (fst (snd (async_update_data c dev fi now coord tr))) = 0"
  by (auto simp add: async_update_data_def Let_def split: prod.splits sum.splits error.splits if_splits)

lemma async_refresh_failure:
  assumes "fst (async_update_data c dev fi now coord tr) = Inl e"
  shows "coordinator_data (fst (async_refresh c dev fi now coord tr)) = coordinator_data coord
         \<and> \<not> is_connected (fst (async_refresh c dev fi now coord tr))
         \<and> get_all_outputs (fst (async_refresh c dev fi now coord tr)) = get_all_outputs coord"
proof -
  obtain coord' tr' where u: "async_update_data c dev fi now coord tr = (Inl e, coord', tr')"
    using assms by (cases "async_update_data c dev fi now coord tr") auto
  have "coordinator_data coord' = coordinator_data coord"
    using async_update_data_keeps_cache [of c dev fi now coord tr] u by simp
  then show ?thesis
    using u by (simp add: async_refresh_def is_connected_def get_all_outputs_def)
qed

lemma async_refresh_success:
  assumes "fst (async_update_data c dev fi now coord tr) = Inr d" and "0 \<le> consecutive_failures coord"
  shows "coordinator_data (fst (async_refresh c dev fi now coord tr)) = Some d
         \<and> is_connected (fst (async_refresh c dev fi now coord tr))
         \<and> consecutive_failures (fst (async_refresh c dev fi now coord tr)) = 0"
proof -
  obtain coord' tr' where u: "async_update_data c dev fi now coord tr = (Inr d, coord', tr')"
    using assms by (cases "async_update_data c dev fi now coord tr") auto
  have "consecutive_failures coord' = 0"
    using async_update_data_success_resets [OF assms] u by simp
  then show ?thesis
    using u by (simp add: async_refresh_def is_connected_def)
qed

text \<open>
  What does not hold: when \<open>get_status\<close> returns something that is not a dict (here the
  JSON body \<open>null\<close>), the counter has been reset before \<open>data.get\<close> raises, so the
  failed refresh leaves it at 1 whatever it was.
\<close>

lemma async_update_data_null_body:
  "0 < consecutive_failures coord \<Longrightarrow>
   async_update_data c null_device fi now coord tr =
     (Inl (UpdateFailed (''Unexpected error: '' @ [CHR 0x27] @ ''NoneType'' @ [CHR 0x27]
                        @ '' object has no attribute '' @ [CHR 0x27] @ ''get'' @ [CHR 0x27])),
      coord\<lparr>consecutive_failures := 1\<rparr>,
      tr @ [Call (request_call c STATUS (Some [(''id'', ''0'')]))])"
  by (simp add: async_update_data_def get_status_def execute_request_def session_get_def
        null_device_def request_call_def Let_def no_attribute_def)

text \<open>
  Claim C7 (the code departs from it). After three consecutive failures, a refresh that
  fails because the device answers \<open>null\<close> with status 200 raises \<open>UpdateFailed\<close>, with
  the message \<open>Unexpected error: 'NoneType' object has no attribute 'get'\<close>, and leaves
  the counter at 1 instead of 4.
\<close>

theorem failed_refresh_resets_counter:
  "async_update_data example_client null_device example_float_input (PyFloat 0 0) stale_coordinator [] =
     (Inl (UpdateFailed (''Unexpected error: '' @ [CHR 0x27] @ ''NoneType'' @ [CHR 0x27]
                        @ '' object has no attribute '' @ [CHR 0x27] @ ''get'' @ [CHR 0x27])),
      stale_coordinator\<lparr>consecutive_failures := 1\<rparr>,
      [Call \<lparr>url = ''http://matrix.local/get_json_scene.php'', params = Some [(''id'', ''0'')],
             headers = [(''Content-Type'', ''application/json'')], timeout = Some 10\<rparr>])
   \<and> consecutive_failures stale_coordinator = 3"
  by (simp add: async_update_data_def get_status_def execute_request_def session_get_def
        null_device_def Let_def stale_coordinator_def example_client_def HDTVMatrixApi_init_def
        rstrip_chars_def build_headers_def no_attribute_def)

text \<open>
  The same from the start: one good refresh, three timeouts, then the \<open>null\<close> answer.
  The snapshot of the first refresh is still cached after the fifth.
\<close>

lemma outage_run:
  "consecutive_failures (fst (refreshes example_client outage_device example_float_input (PyFloat 0 0) 4 (HDTVCoordinator_init, []))) = 3
   \<and> consecutive_failures (fst (refreshes example_client outage_device example_float_input (PyFloat 0 0) 5 (HDTVCoordinator_init, []))) = 1
   \<and> \<not> last_update_success (fst (refreshes example_client outage_device example_float_input (PyFloat 0 0) 5 (HDTVCoordinator_init, [])))
   \<and> coordinator_data (fst (refreshes example_client outage_device example_float_input (PyFloat 0 0) 5 (HDTVCoordinator_init, [])))
       = Some (to_dict (parse_status_array [0, 65535, 2] (PyFloat 0 0)))"
  by code_simp

section \<open>Properties of the read accessors\<close>

subsection \<open>\<open>int(str(i))\<close> is \<open>i\<close>\<close>

lemma digit_char_code: "d < 10 \<Longrightarrow> (of_char (digit_char d) :: nat) = 48 + d"
  by (simp add: digit_char_def)

lemma digits_chars: "c \<in> set (digits n) \<Longrightarrow> \<exists>d < 10. c = digit_char d"
proof (induction n arbitrary: c rule: digits.induct)
  case (1 n)
  show ?case
  proof (cases "n < 10")
    case True
    with "1.prems" show ?thesis
      by (subst (asm) digits.simps) auto
  next
    case False
    with "1.prems" have "c \<in> set (digits (n div 10)) \<or> c = digit_char (n mod 10)"
      by (subst (asm) digits.simps) auto
    then show ?thesis
    proof
      assume "c \<in> set (digits (n div 10))"
      then show ?thesis using "1.IH" False by blast
    next
      assume "c = digit_char (n mod 10)"
      moreover have "n mod 10 < 10" by simp
      ultimately show ?thesis by blast
    qed
  qed
qed

lemma digits_nonempty: "digits n \<noteq> []"
  by (subst digits.simps) simp

lemma digit_char_props:
  assumes "d < 10"
  shows "is_digit (digit_char d)" and "\<not> is_space (digit_char d)"
    and "digit_char d \<noteq> CHR ''_''" and "digit_char d \<noteq> CHR ''-''" and "digit_char d \<noteq> CHR ''+''"
proof -
  have code: "(of_char (digit_char d) :: nat) = 48 + d"
    using assms by (rule digit_char_code)
  show "is_digit (digit_char d)"
    using assms by (simp add: is_digit_def code)
  show "\<not> is_space (digit_char d)"
    using assms by (simp add: is_space_def code)
  have "(of_char (digit_char d) :: nat) \<noteq> of_char CHR ''_''"
    using assms by (simp add: code)
  then show "digit_char d \<noteq> CHR ''_''" by auto
  have "(of_char (digit_char d) :: nat) \<noteq> of_char CHR ''-''"
    using assms by (simp add: code)
  then show "digit_char d \<noteq> CHR ''-''" by auto
  have "(of_char (digit_char d) :: nat) \<noteq> of_char CHR ''+''"
    using assms by (simp add: code)
  then show "digit_char d \<noteq> CHR ''+''" by auto
qed

lemma digits_value_append:
  "digits_value acc (xs @ ys) = digits_value (digits_value acc xs) ys"
  by (induction xs arbitrary: acc) simp_all

lemma digits_value_digits: "digits_value 0 (digits n) = n"
proof (induction n rule: digits.induct)
  case (1 n)
  show ?case
  proof (cases "n < 10")
    case True
    then show ?thesis
      by (subst digits.simps) (simp add: digit_char_code)
  next
    case False
    then have "digits_value 0 (digits n) = 10 * digits_value 0 (digits (n div 10)) + (n mod 10)"
      by (subst digits.simps) (simp add: digits_value_append digit_char_code)
    then show ?thesis
      using "1.IH" False by simp
  qed
qed

lemma strip_id:
  assumes "s \<noteq> []" and "\<not> is_space (hd s)" and "\<not> is_space (last s)"
  shows "strip s = s"
proof -
  have a: "dropWhile is_space s = s"
    using assms(1,2) by (cases s) simp_all
  have "rev s \<noteq> []" and "\<not> is_space (hd (rev s))"
    using assms(1,3) by (simp_all add: hd_rev)
  then have "dropWhile is_space (rev s) = rev s"
    by (cases "rev s") simp_all
  then show ?thesis
    by (simp add: strip_def a)
qed

lemma underscores_ok_none: "CHR ''_'' \<notin> set s \<Longrightarrow> underscores_ok s"
  by (induction s rule: underscores_ok.induct) auto

lemma digits_char_props:
  assumes "c \<in> set (digits n)"
  shows "is_digit c \<and> \<not> is_space c \<and> c \<noteq> CHR ''_'' \<and> c \<noteq> CHR ''-'' \<and> c \<noteq> CHR ''+''"
proof -
  obtain d where d: "d < 10" "c = digit_char d"
    using digits_chars [OF assms] by auto
  show ?thesis
    unfolding d(2) using digit_char_props [OF d(1)] by simp
qed

lemma digits_no_underscore: "CHR ''_'' \<notin> set (digits n)"
  using digits_char_props [of "CHR ''_''" n] by auto

lemma digits_ends:
  "is_digit (hd (digits n))" "is_digit (last (digits n))"
  "\<not> is_space (hd (digits n))" "\<not> is_space (last (digits n))"
  "hd (digits n) \<noteq> CHR ''-''" "hd (digits n) \<noteq> CHR ''+''"
proof -
  have ne: "digits n \<noteq> []" by (rule digits_nonempty)
  then have h: "hd (digits n) \<in> set (digits n)" and l: "last (digits n) \<in> set (digits n)"
    by simp_all
  show "is_digit (hd (digits n))" using digits_char_props [OF h] by simp
  show "is_digit (last (digits n))" using digits_char_props [OF l] by simp
  show "\<not> is_space (hd (digits n))" using digits_char_props [OF h] by simp
  show "\<not> is_space (last (digits n))" using digits_char_props [OF l] by simp
  show "hd (digits n) \<noteq> CHR ''-''" using digits_char_props [OF h] by simp
  show "hd (digits n) \<noteq> CHR ''+''" using digits_char_props [OF h] by simp
qed

lemma digits_valid: "valid_int_body (digits n)"
proof -
  have "list_all (\<lambda>c. is_digit c \<or> c = CHR ''_'') (digits n)"
    unfolding list_all_iff using digits_char_props [of _ n] by auto
  moreover have "underscores_ok (digits n)"
    by (intro underscores_ok_none digits_no_underscore)
  ultimately show ?thesis
    using digits_nonempty [of n] digits_ends(1,2) [of n] by (simp add: valid_int_body_def)
qed

lemma digits_filter: "filter (\<lambda>c. c \<noteq> CHR ''_'') (digits n) = digits n"
proof (rule filter_True)
  show "\<forall>c\<in>set (digits n). c \<noteq> CHR ''_''"
    using digits_no_underscore [of n] by auto
qed

lemma strip_digits: "strip (digits n) = digits n"
  using digits_nonempty digits_ends(3,4) by (intro strip_id)

lemma strip_minus_digits: "strip (CHR ''-'' # digits n) = CHR ''-'' # digits n"
proof (rule strip_id)
  show "CHR ''-'' # digits n \<noteq> []" by simp
  show "\<not> is_space (hd (CHR ''-'' # digits n))" by (simp add: is_space_def)
  show "\<not> is_space (last (CHR ''-'' # digits n))"
    using digits_nonempty [of n] digits_ends(4) [of n] by simp
qed

lemma py_int_unsigned:
  assumes "strip t = t" and "t \<noteq> []" and "hd t \<noteq> CHR ''-''" and "hd t \<noteq> CHR ''+''"
    and "valid_int_body t"
  shows "py_int t = Inr (int (digits_value 0 (filter (\<lambda>c. c \<noteq> CHR ''_'') t)))"
proof -
  obtain c r where t: "t = c # r"
    using assms(2) by (cases t) auto
  have "negative_case = False" if "negative_case = (case t of c # r \<Rightarrow> c = CHR ''-'' | [] \<Rightarrow> False)"
    for negative_case
    using that assms(3) t by simp
  moreover have "(case t of c # r \<Rightarrow> (if c = CHR ''-'' \<or> c = CHR ''+'' then r else t) | [] \<Rightarrow> t) = t"
    using assms(3,4) t by simp
  ultimately show ?thesis
    using assms(5) unfolding py_int_def assms(1) Let_def by simp
qed

lemma py_int_negative:
  assumes "strip (CHR ''-'' # body) = CHR ''-'' # body" and "valid_int_body body"
  shows "py_int (CHR ''-'' # body) = Inr (- int (digits_value 0 (filter (\<lambda>c. c \<noteq> CHR ''_'') body)))"
  using assms(2) unfolding py_int_def assms(1) Let_def by simp

lemma py_int_str_int: "py_int (str_int i) = Inr i"
proof (cases "i < 0")
  case True
  have "py_int (CHR ''-'' # digits (nat (- i))) = Inr (- int (nat (- i)))"
    using py_int_negative [OF strip_minus_digits digits_valid, of "nat (- i)"]
    by (simp only: digits_filter digits_value_digits)
  then show ?thesis
    using True by (simp add: str_int_def)
next
  case False
  have "py_int (digits (nat i)) = Inr (int (nat i))"
    using py_int_unsigned [OF strip_digits digits_nonempty digits_ends(5,6) digits_valid, of "nat i"]
    by (simp only: digits_filter digits_value_digits)
  then show ?thesis
    using False by (simp add: str_int_def)
qed

lemma str_int_inj: "str_int a = str_int b \<Longrightarrow> a = b"
proof -
  assume "str_int a = str_int b"
  then have "py_int (str_int a) = py_int (str_int b)" by simp
  then show "a = b" by (simp add: py_int_str_int)
qed

lemma str_int_no_underscore: "CHR ''_'' \<notin> set (str_int i)"
  using digits_no_underscore by (simp add: str_int_def)

subsection \<open>The snapshot of a parsed status array\<close>

lemma output_key_inj: "''output_'' @ str_int a = ''output_'' @ str_int b \<Longrightarrow> a = b"
  using str_int_inj by simp

lemma to_dict_loop_append:
  "distinct (map fst xs) \<Longrightarrow>
   (\<And>k. k \<in> fst ` set xs \<Longrightarrow> ''output_'' @ str_int k \<notin> fst ` set acc) \<Longrightarrow>
   to_dict_loop xs acc = acc @ map matrix_entry xs"
proof (induction xs arbitrary: acc)
  case Nil
  show ?case by simp
next
  case (Cons p xs)
  obtain num out where p: "p = (num, out)" by (cases p)
  let ?kv = "matrix_entry (num, out)"
  have fresh: "fst ?kv \<notin> fst ` set acc"
    using Cons.prems(2) [of num] by (simp add: p matrix_entry_def)
  have d: "distinct (map fst xs)" and nin: "num \<notin> fst ` set xs"
    using Cons.prems(1) by (simp_all add: p)
  have keys: "\<And>k. k \<in> fst ` set xs \<Longrightarrow> ''output_'' @ str_int k \<notin> fst ` set (acc @ [?kv])"
  proof -
    fix k
    assume k: "k \<in> fst ` set xs"
    then have "''output_'' @ str_int k \<notin> fst ` set acc"
      using Cons.prems(2) [of k] by (simp add: p)
    moreover have "k \<noteq> num"
      using k nin by auto
    then have "''output_'' @ str_int k \<noteq> ''output_'' @ str_int num"
      using output_key_inj by blast
    ultimately show "''output_'' @ str_int k \<notin> fst ` set (acc @ [?kv])"
      by (simp add: matrix_entry_def)
  qed
  have "to_dict_loop ((num, out) # xs) acc = to_dict_loop xs (dict_set acc (fst ?kv) (snd ?kv))"
    by (simp add: matrix_entry_def)
  also have "dict_set acc (fst ?kv) (snd ?kv) = acc @ [?kv]"
    using fresh by (simp add: dict_set_fresh)
  also have "to_dict_loop xs (acc @ [?kv]) = (acc @ [?kv]) @ map matrix_entry xs"
    using d keys by (rule Cons.IH)
  finally show ?case
    by (simp add: p)
qed

lemma to_dict_parsed:
  "to_dict (parse_status_array A now) =
     JObj [(''matrix'', JObj (map (status_entry A) [0..<length A])),
           (''total_outputs'', JInt (int (length A))),
           (''timestamp'', JFloat now)]"
proof -
  let ?outs = "outputs (parse_status_array A now)"
  have d: "distinct (map fst ?outs)"
    by (simp add: parse_status_array_keys distinct_map inj_on_def)
  have "to_dict_loop ?outs [] = [] @ map matrix_entry ?outs"
    using d by (rule to_dict_loop_append) simp
  also have "map matrix_entry ?outs = map (status_entry A) [0..<length A]"
    by (simp add: parse_status_array_outputs matrix_entry_def status_entry_def entry_of_def
          json_of_input_def o_def)
  finally have m: "to_dict_loop ?outs [] = map (status_entry A) [0..<length A]"
    by simp
  have t: "total_outputs (parse_status_array A now) = int (length A)"
    by (simp add: total_outputs_def parse_status_array_outputs)
  have ts: "timestamp (parse_status_array A now) = now"
    by (simp add: parse_status_array_def)
  show ?thesis
    by (simp only: to_dict_def m t ts)
qed

lemma status_entry_lookup:
  "map_of (map (status_entry A) [0..<length A]) (''output_'' @ str_int n) =
     (if 1 \<le> n \<and> n \<le> int (length A) then Some (snd (status_entry A (nat (n - 1)))) else None)"
proof (cases "1 \<le> n \<and> n \<le> int (length A)")
  case True
  let ?i = "nat (n - 1)"
  have "n - 1 < int (length A)" and "0 \<le> n - 1"
    using True by simp_all
  then have i: "?i < length A" "int ?i + 1 = n"
    by (simp_all add: nat_less_iff)
  have "inj_on (\<lambda>i. ''output_'' @ str_int (int i + 1)) (set [0..<length A])"
  proof (rule inj_onI)
    fix x y
    assume "''output_'' @ str_int (int x + 1) = ''output_'' @ str_int (int y + 1)"
    then have "int x + 1 = int y + 1" by (rule output_key_inj)
    then show "x = y" by simp
  qed
  then have dist: "distinct (map fst (map (status_entry A) [0..<length A]))"
    by (simp add: distinct_map status_entry_def o_def)
  have "status_entry A ?i \<in> set (map (status_entry A) [0..<length A])"
    using i(1) by simp
  moreover have "fst (status_entry A ?i) = ''output_'' @ str_int n"
    using i(2) by (simp add: status_entry_def)
  ultimately have "(''output_'' @ str_int n, snd (status_entry A ?i))
                     \<in> set (map (status_entry A) [0..<length A])"
    by (metis prod.collapse)
  then have "map_of (map (status_entry A) [0..<length A]) (''output_'' @ str_int n)
               = Some (snd (status_entry A ?i))"
    using dist by (simp only: map_of_eq_Some_iff)
  then show ?thesis
    using True by simp
next
  case False
  have "''output_'' @ str_int n \<notin> fst ` set (map (status_entry A) [0..<length A])"
  proof
    assume "''output_'' @ str_int n \<in> fst ` set (map (status_entry A) [0..<length A])"
    then obtain i where "i < length A" "''output_'' @ str_int n = ''output_'' @ str_int (int i + 1)"
      by (auto simp add: status_entry_def)
    then have "n = int i + 1" "i < length A"
      using output_key_inj by blast+
    then show False using False by simp
  qed
  then have "map_of (map (status_entry A) [0..<length A]) (''output_'' @ str_int n) = None"
    by (simp add: map_of_eq_None_iff)
  then show ?thesis
    using False by simp
qed

lemma split_on_absent: "sep \<notin> set s \<Longrightarrow> split_on sep s = [s]"
  by (induction s) auto

lemma split_str_int: "split_on CHR ''_'' (str_int k) = [str_int k]"
  by (rule split_on_absent [OF str_int_no_underscore])

lemma split_output_key: "split_on CHR ''_'' (''output_'' @ str_int k) = [''output'', str_int k]"
  by (simp add: split_str_int)

lemma connected_loop_status:
  "connected_loop (map (status_entry A) is) acc =
     Inr (acc @ map (\<lambda>i. int i + 1) (filter (\<lambda>i. A ! i \<noteq> 65535) is))"
proof (induction "is" arbitrary: acc)
  case Nil
  show ?case by simp
next
  case (Cons i "is")
  show ?case
  proof (cases "A ! i = 65535")
    case True
    then show ?thesis
      using Cons.IH [of acc] by (simp add: status_entry_def)
  next
    case False
    then show ?thesis
      using Cons.IH [of "acc @ [int i + 1]"]
      by (simp add: status_entry_def split_str_int py_int_str_int)
  qed
qed

lemma sorted_connected:
  "sorted (map (\<lambda>i. int i + 1) (filter P [0..<n]))"
proof -
  have "sorted (map (\<lambda>i. int i + 1) [0..<n])"
    by (simp add: sorted_iff_nth_mono)
  then show ?thesis
    by (rule sorted_filter)
qed

subsection \<open>The accessors\<close>

lemma accessors_parsed:
  assumes "coordinator_data coord = Some (to_dict (parse_status_array A now))"
  shows "get_output_state coord n =
           Inr (if 1 \<le> n \<and> n \<le> int (length A) then snd (status_entry A (nat (n - 1))) else JObj [])"
    and "get_all_outputs coord = Inr (JObj (map (status_entry A) [0..<length A]))"
    and "get_connected_outputs coord =
           Inr (map (\<lambda>i. int i + 1) (filter (\<lambda>i. A ! i \<noteq> 65535) [0..<length A]))"
proof -
  note d = assms [unfolded to_dict_parsed]
  show "get_output_state coord n =
           Inr (if 1 \<le> n \<and> n \<le> int (length A) then snd (status_entry A (nat (n - 1))) else JObj [])"
    using status_entry_lookup [of A n] by (simp add: get_output_state_def d)
  show "get_all_outputs coord = Inr (JObj (map (status_entry A) [0..<length A]))"
    by (simp add: get_all_outputs_def d)
  have "sort (map (\<lambda>i. int i + 1) (filter (\<lambda>i. A ! i \<noteq> 65535) [0..<length A]))
          = map (\<lambda>i. int i + 1) (filter (\<lambda>i. A ! i \<noteq> 65535) [0..<length A])"
    by (rule sorted_sort_id) (rule sorted_connected)
  then show "get_connected_outputs coord =
           Inr (map (\<lambda>i. int i + 1) (filter (\<lambda>i. A ! i \<noteq> 65535) [0..<length A]))"
    by (simp add: get_connected_outputs_def d connected_loop_status)
qed

text \<open>
  Claim C10, as the code has it. With no snapshot the three accessors return the empty
  dict, the empty dict and the empty list. With a snapshot that is a dict without a
  \<open>matrix\<close> entry they do the same. With a snapshot that is a dict whose \<open>matrix\<close>
  entry is a dict, \<open>get_output_state\<close> and \<open>get_all_outputs\<close> return, and
  \<open>get_output_state(n)\<close> is the empty dict for every \<open>n\<close> that has no entry
  \<open>output_n\<close>. With the snapshot of a parsed status array, none of the three raises:
  \<open>get_output_state(n)\<close> is the entry of output \<open>n\<close> for \<open>n\<close> from 1 to the number of
  outputs and the empty dict for every other \<open>n\<close>, and \<open>get_connected_outputs\<close> is the
  ascending list of the outputs whose raw code is not 65535.
\<close>

theorem accessors_total_on_client_snapshots:
  "(coordinator_data coord = None \<longrightarrow>
      get_output_state coord n = Inr (JObj [])
      \<and> get_all_outputs coord = Inr (JObj [])
      \<and> get_connected_outputs coord = Inr [])
   \<and> (coordinator_data coord = Some (JObj d) \<and> map_of d ''matrix'' = None \<longrightarrow>
      get_output_state coord n = Inr (JObj [])
      \<and> get_all_outputs coord = Inr (JObj [])
      \<and> get_connected_outputs coord = Inr [])
   \<and> (coordinator_data coord = Some (JObj d) \<and> map_of d ''matrix'' = Some (JObj m) \<longrightarrow>
      get_output_state coord n
         = Inr (case map_of m (''output_'' @ str_int n) of Some v \<Rightarrow> v | None \<Rightarrow> JObj [])
      \<and> get_all_outputs coord = Inr (JObj m))
   \<and> (coordinator_data coord = Some (to_dict (parse_status_array A now)) \<longrightarrow>
      get_output_state coord n =
         Inr (if 1 \<le> n \<and> n \<le> int (length A)
              then JObj [(''input'', if A ! nat (n - 1) = 65535 then JNull else JInt (A ! nat (n - 1) + 1)),
                         (''raw_value'', JInt (A ! nat (n - 1)))]
              else JObj [])
      \<and> (\<exists>v. get_all_outputs coord = Inr v)
      \<and> get_connected_outputs coord =
           Inr (map (\<lambda>i. int i + 1) (filter (\<lambda>i. A ! i \<noteq> 65535) [0..<length A])))"
proof (intro conjI impI)
  assume "coordinator_data coord = None"
  then show "get_output_state coord n = Inr (JObj [])" "get_all_outputs coord = Inr (JObj [])"
      "get_connected_outputs coord = Inr []"
    by (simp_all add: get_output_state_def get_all_outputs_def get_connected_outputs_def)
next
  assume "coordinator_data coord = Some (JObj d) \<and> map_of d ''matrix'' = None"
  then show "get_output_state coord n = Inr (JObj [])" "get_all_outputs coord = Inr (JObj [])"
      "get_connected_outputs coord = Inr []"
    by (simp_all add: get_output_state_def get_all_outputs_def get_connected_outputs_def)
next
  assume a: "coordinator_data coord = Some (JObj d) \<and> map_of d ''matrix'' = Some (JObj m)"
  then have "d \<noteq> []" by auto
  with a show "get_output_state coord n
         = Inr (case map_of m (''output_'' @ str_int n) of Some v \<Rightarrow> v | None \<Rightarrow> JObj [])"
      "get_all_outputs coord = Inr (JObj m)"
    by (simp_all add: get_output_state_def get_all_outputs_def)
next
  assume a: "coordinator_data coord = Some (to_dict (parse_status_array A now))"
  show "get_output_state coord n =
         Inr (if 1 \<le> n \<and> n \<le> int (length A)
              then JObj [(''input'', if A ! nat (n - 1) = 65535 then JNull else JInt (A ! nat (n - 1) + 1)),
                         (''raw_value'', JInt (A ! nat (n - 1)))]
              else JObj [])"
    using accessors_parsed(1) [OF a, of n] by (simp add: status_entry_def)
  show "\<exists>v. get_all_outputs coord = Inr v"
    using accessors_parsed(2) [OF a] by simp
  show "get_connected_outputs coord =
           Inr (map (\<lambda>i. int i + 1) (filter (\<lambda>i. A ! i \<noteq> 65535) [0..<length A]))"
    by (rule accessors_parsed(3) [OF a])
qed

text \<open>
  Examples: a new poller, the poller holding the snapshot of \<open>[0, 65535, 2]\<close>, and
  pollers holding a dict without \<open>matrix\<close> and a dict whose \<open>matrix\<close> lacks the output.
\<close>

theorem accessors_total_on_client_snapshots_witness:
  "get_output_state HDTVCoordinator_init 1 = Inr (JObj [])
   \<and> get_all_outputs HDTVCoordinator_init = Inr (JObj [])
   \<and> get_connected_outputs HDTVCoordinator_init = Inr []
   \<and> get_output_state stale_coordinator 2 = Inr (JObj [(''input'', JNull), (''raw_value'', JInt 65535)])
   \<and> get_output_state stale_coordinator 3 = Inr (JObj [(''input'', JInt 3), (''raw_value'', JInt 2)])
   \<and> get_output_state stale_coordinator 4 = Inr (JObj [])
   \<and> get_connected_outputs stale_coordinator = Inr [1, 3]
   \<and> get_output_state (HDTVCoordinator_init\<lparr>coordinator_data := Some (JObj [(''total_outputs'', JInt 0)])\<rparr>) 1
        = Inr (JObj [])
   \<and> get_output_state
        (HDTVCoordinator_init\<lparr>coordinator_data := Some (JObj [(''matrix'', JObj [(''output_1'', JStr ''x'')])])\<rparr>) 2
        = Inr (JObj [])"
proof -
  let ?c3 = "HDTVCoordinator_init\<lparr>coordinator_data := Some (JObj [(''total_outputs'', JInt 0)])\<rparr>"
  let ?c4 = "HDTVCoordinator_init\<lparr>coordinator_data := Some (JObj [(''matrix'', JObj [(''output_1'', JStr ''x'')])])\<rparr>"
  note t1 = accessors_total_on_client_snapshots [where coord = HDTVCoordinator_init and n = 1]
  note t2 = accessors_total_on_client_snapshots
              [where coord = stale_coordinator and A = "[0, 65535, 2]" and now = "PyFloat 0 0"]
  note t3 = accessors_total_on_client_snapshots
              [where coord = ?c3 and n = 1 and d = "[(''total_outputs'', JInt 0)]"]
  note t4 = accessors_total_on_client_snapshots
              [where coord = ?c4 and n = 2 and d = "[(''matrix'', JObj [(''output_1'', JStr ''x'')])]"
                 and m = "[(''output_1'', JStr ''x'')]"]
  have i: "coordinator_data HDTVCoordinator_init = None"
    by (simp add: HDTVCoordinator_init_def)
  have s: "coordinator_data stale_coordinator = Some (to_dict (parse_status_array [0, 65535, 2] (PyFloat 0 0)))"
    by (simp add: stale_coordinator_def)
  have up: "[0..<length [0::int, 65535, 2]] = [0, 1, 2]"
    by (simp add: upt_rec)
  have a1: "get_output_state HDTVCoordinator_init 1 = Inr (JObj [])
      \<and> get_all_outputs HDTVCoordinator_init = Inr (JObj [])
      \<and> get_connected_outputs HDTVCoordinator_init = Inr []"
    using t1 i by blast
  have a2: "get_output_state stale_coordinator 2 = Inr (JObj [(''input'', JNull), (''raw_value'', JInt 65535)])"
    "get_output_state stale_coordinator 3 = Inr (JObj [(''input'', JInt 3), (''raw_value'', JInt 2)])"
    "get_output_state stale_coordinator 4 = Inr (JObj [])"
    using t2 [where n = 2] t2 [where n = 3] t2 [where n = 4] s by simp_all
  have a3: "get_connected_outputs stale_coordinator = Inr [1, 3]"
    using t2 [where n = 1] s unfolding up by simp
  have a4: "get_output_state ?c3 1 = Inr (JObj [])"
    using t3 by (simp add: HDTVCoordinator_init_def)
  have "str_int 2 \<noteq> ''1''"
    by code_simp
  then have a5: "get_output_state ?c4 2 = Inr (JObj [])"
    using t4 by (simp add: HDTVCoordinator_init_def)
  show ?thesis
    using a1 a2 a3 a4 a5 by simp
qed

text \<open>
  Claim C10 as stated fails: \<open>get_status\<close> passes a JSON object from the device through
  unchanged and \<open>_async_update_data\<close> returns it as the new snapshot. With the snapshot
  \<open>{"matrix": 5}\<close> the call \<open>get_output_state(1)\<close> raises the \<open>AttributeError\<close>
  \<open>'int' object has no attribute 'get'\<close> and \<open>get_connected_outputs()\<close> the
  \<open>AttributeError\<close> \<open>'int' object has no attribute 'items'\<close> (\<open>get_all_outputs()\<close>
  returns the 5); with the snapshot \<open>{"matrix": {"hdmi1": {"input": 1}}}\<close> the call
  \<open>get_connected_outputs()\<close> raises \<open>IndexError\<close>.
\<close>

theorem accessors_raise_counterexample:
  "fst (async_update_data example_client odd_device example_float_input (PyFloat 0 0)
          HDTVCoordinator_init [])
      = Inr (JObj [(''matrix'', JInt 5)])
   \<and> get_output_state
        (HDTVCoordinator_init\<lparr>coordinator_data := Some (JObj [(''matrix'', JInt 5)])\<rparr>) 1
      = Inl (AttributeError ([CHR 0x27] @ ''int'' @ [CHR 0x27] @ '' object has no attribute ''
                             @ [CHR 0x27] @ ''get'' @ [CHR 0x27]))
   \<and> get_connected_outputs
        (HDTVCoordinator_init\<lparr>coordinator_data := Some (JObj [(''matrix'', JInt 5)])\<rparr>)
      = Inl (AttributeError ([CHR 0x27] @ ''int'' @ [CHR 0x27] @ '' object has no attribute ''
                             @ [CHR 0x27] @ ''items'' @ [CHR 0x27]))
   \<and> get_all_outputs
        (HDTVCoordinator_init\<lparr>coordinator_data := Some (JObj [(''matrix'', JInt 5)])\<rparr>)
      = Inr (JInt 5)
   \<and> fst (async_update_data example_client odd_keys_device example_float_input (PyFloat 0 0)
             HDTVCoordinator_init [])
      = Inr (JObj [(''matrix'', JObj [(''hdmi1'', JObj [(''input'', JInt 1)])])])
   \<and> get_connected_outputs
        (HDTVCoordinator_init
           \<lparr>coordinator_data := Some (JObj [(''matrix'', JObj [(''hdmi1'', JObj [(''input'', JInt 1)])])])\<rparr>)
      = Inl (IndexError ''list index out of range'')"
  by code_simp

end
